theory Spec2Isabelle
  imports Main
begin

text \<open>
  A model of \<open>inputremapper/migrations.py\<close>: the migration of the configuration tree of
  input-remapper to the layout and the schema of the running release. The first part
  defines the values, the file tree and the migration steps as the source has them, with
  the modules that the source imports as parameters; the second part proves properties of
  the steps and of the whole run.
\<close>

section \<open>Python values held in the configuration files\<close>

text \<open>
  \<open>json.load\<close> turns a document into Python values: \<open>None\<close>, booleans, integers,
  floats, strings, lists and dicts with string keys. The migration stores and compares
  values and never computes with a number, so a float is a value of a type about which
  nothing is known.

  A Python string is held as the bytes of its UTF-8 encoding, one \<open>char\<close> for each byte.
  This keeps what the migration does with strings: two strings are equal when their bytes
  are, appending a string appends its bytes, and the byte \<open>0x2C\<close> is a comma wherever
  it stands, so that \<open>key.count(",")\<close> counts that byte.

  A Python dict keeps its keys unique and in insertion order, so a dict is an association
  list; the operations below are the dict operations the migrations use.
\<close>

typedecl pyfloat

instantiation pyfloat :: equal
begin
definition equal_pyfloat :: "pyfloat \<Rightarrow> pyfloat \<Rightarrow> bool" where
  "equal_pyfloat x y \<longleftrightarrow> x = y"
instance
  by standard (simp add: equal_pyfloat_def)
end

datatype json =
    JNull
  | JBool bool
  | JInt int
  | JFloat pyfloat
  | JStr string
  | JArr "json list"
  | JObj "(string \<times> json) list"

text \<open>
  The exceptions that end a run. \<open>CollaboratorError\<close> stands for an exception raised
  by one of the collaborators (the macro parser or the symbol table). \<open>OutsideModel\<close> is
  not an exception of Python: it is the answer of the example library of this theory
  (section \<open>An example library\<close>) on an input that it does not cover.
\<close>

datatype error =
    JSONDecodeError
  | UnicodeDecodeError
  | RecursionError
  | ValueError
  | AttributeError
  | TypeError
  | KeyError
  | InvalidVersion
  | IsADirectoryError
  | NotADirectoryError
  | FileNotFoundError
  | CollaboratorError
  | OutsideModel

type_synonym 'v pydict = "(string \<times> 'v) list"

text \<open>\<open>k in d.keys()\<close> and \<open>d.get(k)\<close>.\<close>

fun dict_get :: "'v pydict \<Rightarrow> string \<Rightarrow> 'v option" where
  "dict_get [] k = None"
| "dict_get ((k', v) # d) k = (if k' = k then Some v else dict_get d k)"

text \<open>\<open>d[k] = v\<close>: an existing key keeps its place, a new key goes to the end.\<close>

fun dict_set :: "string \<Rightarrow> 'v \<Rightarrow> 'v pydict \<Rightarrow> 'v pydict" where
  "dict_set k v [] = [(k, v)]"
| "dict_set k v ((k', v') # d) = (if k' = k then (k, v) # d else (k', v') # dict_set k v d)"

text \<open>\<open>d.pop(k)\<close>: the value and the dict without the key; \<open>KeyError\<close> on a missing key.\<close>

fun dict_pop :: "string \<Rightarrow> 'v pydict \<Rightarrow> error + 'v \<times> 'v pydict" where
  "dict_pop k [] = Inl KeyError"
| "dict_pop k ((k', v) # d) =
     (if k' = k then Inr (v, d)
      else (case dict_pop k d of
              Inl e \<Rightarrow> Inl e
            | Inr (w, d') \<Rightarrow> Inr (w, (k', v) # d')))"

definition dict_keys :: "'v pydict \<Rightarrow> string list" where
  "dict_keys d = map fst d"

section \<open>Mapping-key migration: the per-mapping transform\<close>

text \<open>
  The loop of \<open>_mapping_keys\<close> over the keys of a deep copy of the mapping:
  \<^verbatim>\<open>
  for key in mapping.keys():
      if key.count(",") == 1:
          preset_dict["mapping"][f"{key},1"] = preset_dict["mapping"].pop(key)
  \<close>
  The right-hand side is evaluated first, so the old key is removed before the new one is
  stored.
\<close>

fun mapping_keys_loop :: "string list \<Rightarrow> json pydict \<Rightarrow> error + json pydict" where
  "mapping_keys_loop [] d = Inr d"
| "mapping_keys_loop (key # keys) d =
     (if count_list key (CHR '','') = 1 then
        (case dict_pop key d of
           Inl e \<Rightarrow> Inl e
         | Inr (v, d') \<Rightarrow> mapping_keys_loop keys (dict_set (key @ '',1'') v d'))
      else mapping_keys_loop keys d)"

definition normalize_mapping :: "json pydict \<Rightarrow> error + json pydict" where
  "normalize_mapping mapping = mapping_keys_loop (dict_keys mapping) mapping"

text \<open>
  The body of \<open>_mapping_keys\<close> between loading and rewriting one preset.
  \<open>preset_dict.keys()\<close> and \<open>mapping.keys()\<close> raise \<open>AttributeError\<close> on a value that
  is not a dict.
\<close>

definition mapping_keys_dict :: "json \<Rightarrow> error + json" where
  "mapping_keys_dict preset_dict =
     (case preset_dict of
        JObj d \<Rightarrow>
          (case dict_get d ''mapping'' of
             None \<Rightarrow> Inr preset_dict
           | Some (JObj mapping) \<Rightarrow>
               (case normalize_mapping mapping of
                  Inl e \<Rightarrow> Inl e
                | Inr mapping' \<Rightarrow> Inr (JObj (dict_set ''mapping'' (JObj mapping') d)))
           | Some _ \<Rightarrow> Inl AttributeError)
      | _ \<Rightarrow> Inl AttributeError)"

section \<open>The configuration tree\<close>

text \<open>
  A file holds bytes, one \<open>char\<close> for each byte. A directory is an association list
  from names to nodes, in the order in which \<open>os.listdir\<close> lists them. The state of the
  file system is the node at \<open>CONFIG_PATH\<close> (\<open>~/.config/input-remapper\<close>) and the
  node at the legacy location \<open>~/.config/key-mapper\<close>; \<open>None\<close> is a path that does
  not exist. A path below \<open>CONFIG_PATH\<close> is the list of its components.
\<close>

datatype node = File string | Dir "(string \<times> node) list"

record fs =
  config_root :: "node option"
  legacy_root :: "node option"

datatype outcome = Done fs | Raised error fs

type_synonym path = "string list"

fun node_get :: "node \<Rightarrow> path \<Rightarrow> node option" where
  "node_get n [] = Some n"
| "node_get (File text) (x # xs) = None"
| "node_get (Dir es) (x # xs) =
     (case dict_get es x of None \<Rightarrow> None | Some n \<Rightarrow> node_get n xs)"

text \<open>Store a node at a path whose parent directory exists.\<close>

fun node_put :: "node \<Rightarrow> path \<Rightarrow> node \<Rightarrow> node" where
  "node_put n [] new = new"
| "node_put (File text) (x # xs) new = File text"
| "node_put (Dir es) [x] new = Dir (dict_set x new es)"
| "node_put (Dir es) (x # y # ys) new =
     (case dict_get es x of
        None \<Rightarrow> Dir es
      | Some n \<Rightarrow> Dir (dict_set x (node_put n (y # ys) new) es))"

definition remove_entry :: "string \<Rightarrow> (string \<times> node) list \<Rightarrow> (string \<times> node) list" where
  "remove_entry name es = filter (\<lambda>(k, n). k \<noteq> name) es"

definition lookup :: "fs \<Rightarrow> path \<Rightarrow> node option" where
  "lookup s p = (case config_root s of None \<Rightarrow> None | Some root \<Rightarrow> node_get root p)"

text \<open>\<open>os.path.exists\<close> and \<open>os.path.isdir\<close> of a path below \<open>CONFIG_PATH\<close>.\<close>

definition path_exists :: "fs \<Rightarrow> path \<Rightarrow> bool" where
  "path_exists s p \<longleftrightarrow> lookup s p \<noteq> None"

definition isdir :: "fs \<Rightarrow> path \<Rightarrow> bool" where
  "isdir s p \<longleftrightarrow> (case lookup s p of Some (Dir es) \<Rightarrow> True | _ \<Rightarrow> False)"

text \<open>
  \<open>open(path, "r")\<close>: the exception that opening raises, or the bytes that the opened
  file holds. Nothing is decoded here: the bytes become text, or fail to, when
  \<open>json.load\<close> reads the file (\<open>json_load\<close> below).
\<close>

definition read_file :: "fs \<Rightarrow> path \<Rightarrow> error + string" where
  "read_file s p =
     (case lookup s p of
        None \<Rightarrow> Inl FileNotFoundError
      | Some (Dir es) \<Rightarrow> Inl IsADirectoryError
      | Some (File text) \<Rightarrow> Inr text)"

text \<open>
  \<open>open(path, "w")\<close> on a file that \<open>read_file\<close> has read, and writing to it: the bytes
  written replace the bytes of the file.
\<close>

definition write_file :: "fs \<Rightarrow> path \<Rightarrow> string \<Rightarrow> fs" where
  "write_file s p text = s\<lparr>config_root := map_option (\<lambda>root. node_put root p (File text)) (config_root s)\<rparr>"

text \<open>\<open>os.listdir(CONFIG_PATH)\<close>.\<close>

definition listdir_root :: "fs \<Rightarrow> error + string list" where
  "listdir_root s =
     (case config_root s of
        None \<Rightarrow> Inl FileNotFoundError
      | Some (File text) \<Rightarrow> Inl NotADirectoryError
      | Some (Dir es) \<Rightarrow> Inr (map fst es))"

text \<open>
  \<open>os.rename\<close> of an entry of \<open>CONFIG_PATH\<close> to a new name in the same directory, and
  into the \<open>presets\<close> directory under the same name. Both are called for an entry that
  exists and a destination that does not.
\<close>

definition rename_in_root :: "string \<Rightarrow> string \<Rightarrow> fs \<Rightarrow> fs" where
  "rename_in_root old new s =
     (case config_root s of
        Some (Dir es) \<Rightarrow>
          (case dict_get es old of
             None \<Rightarrow> s
           | Some n \<Rightarrow> s\<lparr>config_root := Some (Dir (dict_set new n (remove_entry old es)))\<rparr>)
      | _ \<Rightarrow> s)"

definition move_into_presets :: "string \<Rightarrow> fs \<Rightarrow> fs" where
  "move_into_presets name s =
     (case config_root s of
        Some (Dir es) \<Rightarrow>
          (case dict_get es name of
             None \<Rightarrow> s
           | Some n \<Rightarrow>
               s\<lparr>config_root :=
                    Some (node_put (Dir (remove_entry name es)) [''presets'', name] n)\<rparr>)
      | _ \<Rightarrow> s)"

text \<open>
  Modelled from the spec: \<open>get_preset_path()\<close> and \<open>mkdir\<close> of \<open>inputremapper.paths\<close>
  are not part of the source file. The presets directory is the \<open>presets\<close> subdirectory
  of the config root, and \<open>mkdir\<close> creates it as an empty directory.
\<close>

definition get_preset_path :: path where
  "get_preset_path = [''presets'']"

definition mkdir_presets :: "fs \<Rightarrow> fs" where
  "mkdir_presets s =
     (case config_root s of
        Some (Dir es) \<Rightarrow> s\<lparr>config_root := Some (Dir (dict_set ''presets'' (Dir []) es))\<rparr>
      | _ \<Rightarrow> s)"

text \<open>
  \<open>Path.suffix\<close>: the text from the last dot of the name, when that dot is neither the
  first nor the last character.
\<close>

definition path_suffix :: "string \<Rightarrow> string" where
  "path_suffix name =
     (let ext = rev (takeWhile (\<lambda>c. c \<noteq> CHR ''.'') (rev name)) in
      if ext \<noteq> [] \<and> Suc (length ext) < length name then CHR ''.'' # ext else [])"

text \<open>
  \<open>all_presets\<close>: every entry with the suffix \<open>.json\<close> of every directory below the
  presets directory, as the path of the entry.
\<close>

definition all_presets :: "fs \<Rightarrow> error + path list" where
  "all_presets s =
     (case lookup s get_preset_path of
        None \<Rightarrow> Inl FileNotFoundError
      | Some (File text) \<Rightarrow> Inl NotADirectoryError
      | Some (Dir folders) \<Rightarrow>
          Inr (concat (map (\<lambda>(folder, n).
                 (case n of
                    File text \<Rightarrow> []
                  | Dir presets \<Rightarrow>
                      map (\<lambda>preset. get_preset_path @ [folder, preset])
                        (filter (\<lambda>preset. path_suffix preset = ''.json'') (map fst presets))))
               folders)))"


section \<open>The imported modules\<close>

text \<open>
  The source file imports the JSON codec, the version parser, the running version, the
  macro parser, the symbol table and the registry of output devices from other modules.
  They are parameters of the model:
  \<^item> \<open>VERSION\<close>, the version string of the running application;
  \<^item> \<open>json_load\<close>, what \<open>json.load(file)\<close> does with the bytes of a file opened for
  reading: it decodes them in the encoding of the locale, parses the text, and returns
  the value or the exception raised (\<open>UnicodeDecodeError\<close> for bytes that are not text
  in that encoding, \<open>JSONDecodeError\<close> for text that is not a JSON document);
  \<^item> \<open>json_dump\<close>, what \<open>json.dump(value, file, indent=4)\<close> writes: the whole
  document, or an exception together with the part of the document written before it
  was raised;
  \<^item> \<open>parse_version\<close>, the function \<open>pkg_resources.parse_version\<close> on a string, which
  returns a version or raises, and \<open>version_less\<close>, the comparison \<open><\<close> of two
  versions;
  \<^item> \<open>is_this_a_macro\<close>, the macro detector;
  \<^item> \<open>parse_capabilities\<close>, the result of \<open>parse(symbol).get_capabilities()\<close>, which
  may raise;
  \<^item> \<open>system_mapping_get\<close>, the lookup \<open>system_mapping.get(symbol)\<close>, which may raise or
  return \<open>None\<close>;
  \<^item> \<open>py_str\<close>, the built-in conversion \<open>str(value)\<close> of a value that is not a string;
  \<^item> \<open>devices\<close>, the items of \<open>global_uinputs.devices\<close> after
  \<open>global_uinputs.prepare()\<close>, in their order, each with its \<open>capabilities()\<close>.

  The collaborators are called with the value that the preset holds, which need not be a
  string. A capability set maps each of the two event types to a set of codes. A code is a
  Python value: an integer, or \<open>None\<close> when the lookup did not find the name.
\<close>

type_synonym code = "int option"

record capabilities =
  EV_KEY :: "code set"
  EV_REL :: "code set"

record 'ver env =
  VERSION :: string
  json_load :: "string \<Rightarrow> error + json"
  json_dump :: "json \<Rightarrow> error \<times> string + string"
  parse_version :: "string \<Rightarrow> error + 'ver"
  version_less :: "'ver \<Rightarrow> 'ver \<Rightarrow> bool"
  is_this_a_macro :: "json \<Rightarrow> bool"
  parse_capabilities :: "json \<Rightarrow> error + capabilities"
  system_mapping_get :: "json \<Rightarrow> error + code"
  py_str :: "json \<Rightarrow> error + string"
  devices :: "(string \<times> capabilities) list"

definition nl :: char where "nl = CHR 0x0A"

section \<open>Reading and stamping the version\<close>

text \<open>
  \<open>config_version\<close>. There is no handler around \<open>json.load\<close>: whatever it raises
  leaves the function. \<open>config.keys()\<close> raises \<open>AttributeError\<close> on a value that is not
  a dict, and \<open>parse_version\<close> raises \<open>TypeError\<close> on a value that is not a string.
\<close>

definition config_version :: "'ver env \<Rightarrow> fs \<Rightarrow> error + 'ver" where
  "config_version env s =
     (if \<not> path_exists s [''config.json''] then parse_version env ''0.0.0''
      else
        (case read_file s [''config.json''] of
           Inl e \<Rightarrow> Inl e
         | Inr content \<Rightarrow>
             (case json_load env content of
                Inl e \<Rightarrow> Inl e
              | Inr (JObj config) \<Rightarrow>
                  (case dict_get config ''version'' of
                     None \<Rightarrow> parse_version env ''0.0.0''
                   | Some (JStr str) \<Rightarrow> parse_version env str
                   | Some _ \<Rightarrow> Inl TypeError)
              | Inr _ \<Rightarrow> Inl AttributeError)))"

text \<open>
  \<open>_update_version\<close>. The file is opened for writing, which empties it, and is written
  by \<open>json.dump\<close> alone: nothing follows the encoded document. \<open>config["version"] = ...\<close>
  raises \<open>TypeError\<close> on a value that is not a dict.
\<close>

definition update_version :: "'ver env \<Rightarrow> fs \<Rightarrow> outcome" where
  "update_version env s =
     (if \<not> path_exists s [''config.json''] then Done s
      else
        (case read_file s [''config.json''] of
           Inl e \<Rightarrow> Raised e s
         | Inr content \<Rightarrow>
             (case json_load env content of
                Inl e \<Rightarrow> Raised e s
              | Inr (JObj config) \<Rightarrow>
                  (case json_dump env (JObj (dict_set ''version'' (JStr (VERSION env)) config)) of
                     Inl (e, partial) \<Rightarrow> Raised e (write_file s [''config.json''] partial)
                   | Inr text \<Rightarrow> Done (write_file s [''config.json''] text))
              | Inr _ \<Rightarrow> Raised TypeError s)))"

section \<open>Layout migration and config relocation\<close>

definition config_suffix :: "fs \<Rightarrow> outcome" where
  "config_suffix s =
     (if path_exists s [''config''] \<and> \<not> path_exists s [''config.json'']
      then Done (rename_in_root ''config'' ''config.json'' s)
      else Done s)"

text \<open>The loop of \<open>_preset_path\<close> over the names listed before \<open>presets\<close> was created.\<close>

fun move_groups :: "string list \<Rightarrow> fs \<Rightarrow> fs" where
  "move_groups [] s = s"
| "move_groups (name # names) s =
     move_groups names (if isdir s [name] then move_into_presets name s else s)"

definition preset_path :: "fs \<Rightarrow> outcome" where
  "preset_path s =
     (if path_exists s get_preset_path \<or> \<not> path_exists s [] then Done s
      else
        (case listdir_root s of
           Inl e \<Rightarrow> Raised e s
         | Inr groups \<Rightarrow> Done (move_groups groups (mkdir_presets s))))"

text \<open>\<open>_rename_config\<close>: \<open>shutil.move\<close> of the whole legacy tree to \<open>CONFIG_PATH\<close>.\<close>

definition rename_config :: "fs \<Rightarrow> outcome" where
  "rename_config s =
     (if \<not> path_exists s [] \<and> legacy_root s \<noteq> None
      then Done (s\<lparr>config_root := legacy_root s, legacy_root := None\<rparr>)
      else Done s)"

section \<open>Rewriting the presets\<close>

text \<open>
  Both preset migrations have the same loop: for every path of \<open>all_presets()\<close>, open the
  file, and from its bytes either go on to the next preset with the file as it is
  (\<open>continue\<close>), or replace the bytes of the file, or raise. An exception raised before
  the file is opened for writing leaves the file as it is; an exception raised by
  \<open>json.dump\<close> leaves in the file what was written before it. An exception leaves the
  loop with the files written so far.
\<close>

datatype rewrite =
    Skip
  | Replace string
  | Raise error
  | RaiseWriting error string

fun rewrite_presets :: "(string \<Rightarrow> rewrite) \<Rightarrow> path list \<Rightarrow> fs \<Rightarrow> outcome" where
  "rewrite_presets f [] s = Done s"
| "rewrite_presets f (preset # presets) s =
     (case read_file s preset of
        Inl e \<Rightarrow> Raised e s
      | Inr content \<Rightarrow>
          (case f content of
             Skip \<Rightarrow> rewrite_presets f presets s
           | Replace new \<Rightarrow> rewrite_presets f presets (write_file s preset new)
           | Raise e \<Rightarrow> Raised e s
           | RaiseWriting e partial \<Rightarrow> Raised e (write_file s preset partial)))"

text \<open>
  The handler of both loops, \<open>except json.decoder.JSONDecodeError: continue\<close>, around
  \<open>json.load\<close>: it catches that exception and no other.
\<close>

definition load_preset :: "'ver env \<Rightarrow> string \<Rightarrow> (json \<Rightarrow> rewrite) \<Rightarrow> rewrite" where
  "load_preset env content body =
     (case json_load env content of
        Inl e \<Rightarrow> (if e = JSONDecodeError then Skip else Raise e)
      | Inr preset_dict \<Rightarrow> body preset_dict)"

text \<open>
  The end of both loops: the preset is written indented by \<open>json.dump\<close> and a line break
  is written after it.
\<close>

definition dump_preset :: "'ver env \<Rightarrow> json \<Rightarrow> rewrite" where
  "dump_preset env preset_dict =
     (case json_dump env preset_dict of
        Inl (e, partial) \<Rightarrow> RaiseWriting e partial
      | Inr text \<Rightarrow> Replace (text @ [nl]))"

text \<open>\<open>_mapping_keys\<close> on the bytes of one preset, and on the tree.\<close>

definition mapping_keys_text :: "'ver env \<Rightarrow> string \<Rightarrow> rewrite" where
  "mapping_keys_text env content =
     load_preset env content (\<lambda>preset_dict.
       case mapping_keys_dict preset_dict of
         Inl e \<Rightarrow> Raise e
       | Inr preset_dict' \<Rightarrow> dump_preset env preset_dict')"

definition mapping_keys :: "'ver env \<Rightarrow> fs \<Rightarrow> outcome" where
  "mapping_keys env s =
     (if \<not> path_exists s get_preset_path then Done s
      else
        (case all_presets s of
           Inl e \<Rightarrow> Raised e s
         | Inr presets \<Rightarrow> rewrite_presets (mapping_keys_text env) presets s))"

section \<open>Target annotation\<close>

text \<open>\<open>_find_target\<close>: the name of a device, or \<open>None\<close>.\<close>

fun first_capable :: "code set \<Rightarrow> (string \<times> capabilities) list \<Rightarrow> string option" where
  "first_capable required [] = None"
| "first_capable required ((name, uinput) # ds) =
     (if required \<subseteq> EV_KEY uinput then Some name else first_capable required ds)"

definition required_capabilities :: "'ver env \<Rightarrow> json \<Rightarrow> error + capabilities" where
  "required_capabilities env symbol =
     (if is_this_a_macro env symbol then parse_capabilities env symbol
      else
        (case system_mapping_get env symbol of
           Inl e \<Rightarrow> Inl e
         | Inr c \<Rightarrow> Inr \<lparr>EV_KEY = {c}, EV_REL = {}\<rparr>))"

definition find_target :: "'ver env \<Rightarrow> json \<Rightarrow> error + string option" where
  "find_target env symbol =
     (case required_capabilities env symbol of
        Inl e \<Rightarrow> Inl e
      | Inr caps \<Rightarrow>
          (if EV_REL caps \<noteq> {} then Inr (Some ''mouse'')
           else Inr (first_capable (EV_KEY caps) (devices env))))"

definition broken_mapping :: string where
  "broken_mapping =
     nl # ''# Broken mapping:'' @ nl # ''# No target can handle all specified keycodes''"

text \<open>
  \<open>f"{symbol}..."\<close>: a string is inserted as it is, any other value as \<open>str\<close> converts
  it.
\<close>

definition format_symbol :: "'ver env \<Rightarrow> json \<Rightarrow> error + string" where
  "format_symbol env symbol = (case symbol of JStr text \<Rightarrow> Inr text | _ \<Rightarrow> py_str env symbol)"

text \<open>
  The value stored for a symbol and the target found for it. When no target is found, the
  target is \<open>keyboard\<close> and the remark is appended to the symbol; the value stored is the
  list of the symbol and the target.
\<close>

definition with_target :: "'ver env \<Rightarrow> json \<Rightarrow> string option \<Rightarrow> error + json" where
  "with_target env symbol target =
     (case target of
        None \<Rightarrow>
          (case format_symbol env symbol of
             Inl e \<Rightarrow> Inl e
           | Inr text \<Rightarrow> Inr (JArr [JStr (text @ broken_mapping), JStr ''keyboard'']))
      | Some name \<Rightarrow> Inr (JArr [symbol, JStr name]))"

text \<open>\<open>isinstance(symbol, list)\<close>.\<close>

definition is_list :: "json \<Rightarrow> bool" where
  "is_list v = (case v of JArr xs \<Rightarrow> True | _ \<Rightarrow> False)"

text \<open>
  The loop of \<open>_add_target\<close> over the items of a copy of the mapping. A value that is a
  list is left alone; every other value is given to \<open>_find_target\<close>.
\<close>

fun add_target_loop :: "'ver env \<Rightarrow> (string \<times> json) list \<Rightarrow> json pydict \<Rightarrow> error + json pydict" where
  "add_target_loop env [] mapping = Inr mapping"
| "add_target_loop env ((key, symbol) # items) mapping =
     (if is_list symbol then add_target_loop env items mapping
      else
        (case find_target env symbol of
           Inl e \<Rightarrow> Inl e
         | Inr target \<Rightarrow>
             (case with_target env symbol target of
                Inl e \<Rightarrow> Inl e
              | Inr pair \<Rightarrow> add_target_loop env items (dict_set key pair mapping))))"

text \<open>
  \<open>_add_target\<close> on the bytes of one preset, and on the tree. A preset with no mapping
  is not written. \<open>preset_dict.keys()\<close> and \<open>.copy().items()\<close> raise
  \<open>AttributeError\<close> on a value that is not a dict.
\<close>

definition add_target_text :: "'ver env \<Rightarrow> string \<Rightarrow> rewrite" where
  "add_target_text env content =
     load_preset env content (\<lambda>loaded.
       case loaded of
         JObj preset_dict \<Rightarrow>
           (case dict_get preset_dict ''mapping'' of
              None \<Rightarrow> Skip
            | Some (JObj mapping) \<Rightarrow>
                (case add_target_loop env mapping mapping of
                   Inl e \<Rightarrow> Raise e
                 | Inr mapping' \<Rightarrow>
                     dump_preset env (JObj (dict_set ''mapping'' (JObj mapping') preset_dict)))
            | Some _ \<Rightarrow> Raise AttributeError)
       | _ \<Rightarrow> Raise AttributeError)"

definition add_target :: "'ver env \<Rightarrow> fs \<Rightarrow> outcome" where
  "add_target env s =
     (if \<not> path_exists s get_preset_path then Done s
      else
        (case all_presets s of
           Inl e \<Rightarrow> Raised e s
         | Inr presets \<Rightarrow> rewrite_presets (add_target_text env) presets s))"

section \<open>The orchestrator\<close>

text \<open>
  \<open>if v < pkg_resources.parse_version(threshold): step()\<close>, and the sequence of such
  gated steps; an exception ends the run.
\<close>

definition gate :: "'ver env \<Rightarrow> 'ver \<Rightarrow> string \<Rightarrow> (fs \<Rightarrow> outcome) \<Rightarrow> fs \<Rightarrow> outcome" where
  "gate env v threshold step s =
     (case parse_version env threshold of
        Inl e \<Rightarrow> Raised e s
      | Inr t \<Rightarrow> (if version_less env v t then step s else Done s))"

fun run_steps :: "(fs \<Rightarrow> outcome) list \<Rightarrow> fs \<Rightarrow> outcome" where
  "run_steps [] s = Done s"
| "run_steps (step # steps) s =
     (case step s of
        Raised e s' \<Rightarrow> Raised e s'
      | Done s' \<Rightarrow> run_steps steps s')"

definition migrate :: "'ver env \<Rightarrow> fs \<Rightarrow> outcome" where
  "migrate env s =
     (case config_version env s of
        Inl e \<Rightarrow> Raised e s
      | Inr v \<Rightarrow>
          run_steps
            [gate env v ''0.4.0'' (\<lambda>s. run_steps [config_suffix, preset_path] s),
             gate env v ''1.2.2'' (mapping_keys env),
             gate env v ''1.3.0'' rename_config,
             gate env v ''1.4.0'' (add_target env),
             gate env v (VERSION env) (update_version env)]
            s)"


section \<open>An example library\<close>

text \<open>
  The examples of this theory need one library to run with. This section defines it: the
  JSON codec of CPython in a UTF-8 locale and the version parser of \<open>pkg_resources\<close>,
  each on a part of its inputs. On an input of that part the example library answers as
  the Python library does; on every other input it answers \<open>OutsideModel\<close>, and so it
  never takes a document that Python reads for a corrupt one. The properties that are
  stated for every library do not depend on this section.

  The codec covers ASCII documents of at most 4000 bytes with at most 50 opening brackets
  and no number with a fraction or an exponent, and values without floats whose strings
  are ASCII.
\<close>

subsection \<open>Encoding\<close>

definition dq :: char where "dq = CHR 0x22"
definition bs :: char where "bs = CHR 0x5C"

definition digit_char :: "nat \<Rightarrow> char" where
  "digit_char n = char_of (48 + n)"

definition hex_char :: "nat \<Rightarrow> char" where
  "hex_char n = (if n < 10 then char_of (48 + n) else char_of (87 + n))"

text \<open>\<open>str(n)\<close> of a Python integer.\<close>

function digits :: "nat \<Rightarrow> string" where
  "digits n = (if n < 10 then [digit_char n] else digits (n div 10) @ [digit_char (n mod 10)])"
  by pat_completeness auto
termination
  by (relation "measure id") auto

declare digits.simps [simp del]

definition str_int :: "int \<Rightarrow> string" where
  "str_int i = (if i < 0 then CHR ''-'' # digits (nat (- i)) else digits (nat i))"

text \<open>
  The encoding of an ASCII character in a string, with \<open>ensure_ascii\<close> (the default):
  the quote and the backslash are escaped, the usual control characters have short
  escapes, every other character outside the range from space to tilde is written as
  \<open>\u00XX\<close>.
\<close>

definition escape_char :: "char \<Rightarrow> string" where
  "escape_char c =
     (if c = dq then [bs, dq]
      else if c = bs then [bs, bs]
      else if c = CHR 0x0A then [bs, CHR ''n'']
      else if c = CHR 0x0D then [bs, CHR ''r'']
      else if c = CHR 0x09 then [bs, CHR ''t'']
      else if c = CHR 0x08 then [bs, CHR ''b'']
      else if c = CHR 0x0C then [bs, CHR ''f'']
      else if 0x20 \<le> (of_char c :: nat) \<and> (of_char c :: nat) \<le> 0x7E then [c]
      else [bs, CHR ''u'', CHR ''0'', CHR ''0'',
            hex_char ((of_char c :: nat) div 16), hex_char ((of_char c :: nat) mod 16)])"

definition encode_str :: "string \<Rightarrow> string" where
  "encode_str s = dq # concat (map escape_char s) @ [dq]"

text \<open>A line break followed by the indentation of a nesting level, four spaces each.\<close>

definition newline_indent :: "nat \<Rightarrow> string" where
  "newline_indent level = nl # replicate (4 * level) (CHR '' '')"

text \<open>
  The encoder at a nesting level. An empty list or dict is \<open>[]\<close> or \<open>{}\<close>;
  otherwise every item is on a line of its own, the items are separated by a comma, and a
  key is separated from its value by a colon and a space. What is written for a float is
  left open.
\<close>

fun dumps_at :: "nat \<Rightarrow> json \<Rightarrow> string"
  and dumps_items :: "nat \<Rightarrow> json list \<Rightarrow> string"
  and dumps_members :: "nat \<Rightarrow> (string \<times> json) list \<Rightarrow> string" where
  "dumps_at level JNull = ''null''"
| "dumps_at level (JBool b) = (if b then ''true'' else ''false'')"
| "dumps_at level (JInt i) = str_int i"
| "dumps_at level (JStr s) = encode_str s"
| "dumps_at level (JArr []) = ''[]''"
| "dumps_at level (JArr (x # xs)) =
     CHR ''['' # newline_indent (Suc level) @ dumps_items (Suc level) (x # xs)
       @ newline_indent level @ '']''"
| "dumps_at level (JObj []) = ''{}''"
| "dumps_at level (JObj (m # ms)) =
     CHR ''{'' # newline_indent (Suc level) @ dumps_members (Suc level) (m # ms)
       @ newline_indent level @ ''}''"
| "dumps_items level [] = []"
| "dumps_items level [x] = dumps_at level x"
| "dumps_items level (x # y # ys) =
     dumps_at level x @ CHR '','' # newline_indent level @ dumps_items level (y # ys)"
| "dumps_members level [] = []"
| "dumps_members level [(k, v)] = encode_str k @ '': '' @ dumps_at level v"
| "dumps_members level ((k, v) # m # ms) =
     encode_str k @ '': '' @ dumps_at level v @ CHR '','' # newline_indent level
       @ dumps_members level (m # ms)"

text \<open>The values that the encoder covers: no float, and ASCII in every string and key.\<close>

definition ascii :: "string \<Rightarrow> bool" where
  "ascii s = list_all (\<lambda>c. (of_char c :: nat) < 0x80) s"

fun plain :: "json \<Rightarrow> bool" where
  "plain (JFloat x) = False"
| "plain (JStr s) = ascii s"
| "plain (JArr xs) = list_all plain xs"
| "plain (JObj ms) = list_all (\<lambda>(k, v). ascii k \<and> plain v) ms"
| "plain v = True"

text \<open>The documents that the codec covers by their size.\<close>

definition brackets :: "string \<Rightarrow> nat" where
  "brackets s = length (filter (\<lambda>c. c = CHR ''['' \<or> c = CHR ''{'') s)"

definition small :: "string \<Rightarrow> bool" where
  "small s \<longleftrightarrow> length s \<le> 4000 \<and> brackets s \<le> 50"

text \<open>
  \<open>json.dump(value, file, indent=4)\<close> of the example library. It writes the whole
  document or nothing.
\<close>

definition json_dumps :: "json \<Rightarrow> string" where
  "json_dumps v = dumps_at 0 v"

definition example_json_dump :: "json \<Rightarrow> error \<times> string + string" where
  "example_json_dump v =
     (if plain v \<and> small (json_dumps v @ [nl]) then Inr (json_dumps v)
      else Inl (OutsideModel, []))"

subsection \<open>Decoding\<close>

definition is_ws :: "char \<Rightarrow> bool" where
  "is_ws c \<longleftrightarrow> c = CHR '' '' \<or> c = CHR 0x09 \<or> c = CHR 0x0A \<or> c = CHR 0x0D"

definition skip_ws :: "string \<Rightarrow> string" where
  "skip_ws s = dropWhile is_ws s"

definition is_digit :: "char \<Rightarrow> bool" where
  "is_digit c \<longleftrightarrow> 48 \<le> (of_char c :: nat) \<and> (of_char c :: nat) \<le> 57"

definition digit_val :: "char \<Rightarrow> nat" where
  "digit_val c = of_char c - 48"

definition nat_of_digits :: "string \<Rightarrow> nat" where
  "nat_of_digits ds = foldl (\<lambda>a c. 10 * a + digit_val c) 0 ds"

definition hex_val :: "char \<Rightarrow> nat option" where
  "hex_val c =
     (let n = (of_char c :: nat) in
      if 48 \<le> n \<and> n \<le> 57 then Some (n - 48)
      else if 97 \<le> n \<and> n \<le> 102 then Some (n - 87)
      else if 65 \<le> n \<and> n \<le> 70 then Some (n - 55)
      else None)"

definition unescape :: "char \<Rightarrow> char option" where
  "unescape e =
     (if e = dq then Some dq
      else if e = bs then Some bs
      else if e = CHR ''/'' then Some (CHR ''/'')
      else if e = CHR ''b'' then Some (CHR 0x08)
      else if e = CHR ''f'' then Some (CHR 0x0C)
      else if e = CHR ''n'' then Some (CHR 0x0A)
      else if e = CHR ''r'' then Some (CHR 0x0D)
      else if e = CHR ''t'' then Some (CHR 0x09)
      else None)"

text \<open>
  The four characters after \<open>\u\<close>. Four hexadecimal digits with a code below 128 give
  an ASCII character. A code of 128 or more is a character outside ASCII, and four
  characters that are not all hexadecimal digits are read differently by the two
  scanners of CPython: both are outside the example library.
\<close>

definition decode_uXXXX :: "char \<Rightarrow> char \<Rightarrow> char \<Rightarrow> char \<Rightarrow> error + char" where
  "decode_uXXXX a b c d =
     (case (hex_val a, hex_val b, hex_val c, hex_val d) of
        (Some w, Some x, Some y, Some z) \<Rightarrow>
          (if w = 0 \<and> x = 0 \<and> y < 8 then Inr (char_of (16 * y + z)) else Inl OutsideModel)
      | _ \<Rightarrow> Inl OutsideModel)"

text \<open>
  The scanner of a string, called after the opening quote: it returns the decoded string
  and the text after the closing quote. A raw control character, an unknown escape and
  the end of the text inside the string are errors.
\<close>

fun scanstring :: "string \<Rightarrow> error + string \<times> string" where
  "scanstring [] = Inl JSONDecodeError"
| "scanstring (c # cs) =
     (if c = dq then Inr ([], cs)
      else if c = bs then
        (case cs of
           [] \<Rightarrow> Inl JSONDecodeError
         | e # cs' \<Rightarrow>
             (if e = CHR ''u'' then
                (case cs' of
                   h1 # h2 # h3 # h4 # cs'' \<Rightarrow>
                     (case decode_uXXXX h1 h2 h3 h4 of
                        Inl err \<Rightarrow> Inl err
                      | Inr ch \<Rightarrow>
                          (case scanstring cs'' of
                             Inl err \<Rightarrow> Inl err
                           | Inr (s, r) \<Rightarrow> Inr (ch # s, r)))
                 | _ \<Rightarrow> Inl JSONDecodeError)
              else
                (case unescape e of
                   None \<Rightarrow> Inl JSONDecodeError
                 | Some ch \<Rightarrow>
                     (case scanstring cs' of
                        Inl err \<Rightarrow> Inl err
                      | Inr (s, r) \<Rightarrow> Inr (ch # s, r)))))
      else if (of_char c :: nat) < 0x20 then Inl JSONDecodeError
      else (case scanstring cs of
              Inl err \<Rightarrow> Inl err
            | Inr (s, r) \<Rightarrow> Inr (c # s, r)))"

text \<open>
  An integer: an optional minus sign, then a single zero or a run of digits that starts
  with a non-zero digit. When \<open>.\<close>, \<open>e\<close> or \<open>E\<close> follows, the number may go on
  with a fraction or an exponent, which is outside the example library.
\<close>

definition scan_digits :: "string \<Rightarrow> (nat \<times> string) option" where
  "scan_digits s =
     (case s of
        [] \<Rightarrow> None
      | c # r \<Rightarrow>
          (if \<not> is_digit c then None
           else if c = CHR ''0'' then Some (0, r)
           else Some (nat_of_digits (takeWhile is_digit s), dropWhile is_digit s)))"

definition scan_int :: "string \<Rightarrow> error + int \<times> string" where
  "scan_int s =
     (case (case s of
              [] \<Rightarrow> None
            | c # r \<Rightarrow>
                (if c = CHR ''-'' then map_option (\<lambda>(n, r'). (- int n, r')) (scan_digits r)
                 else map_option (\<lambda>(n, r'). (int n, r')) (scan_digits s))) of
        None \<Rightarrow> Inl JSONDecodeError
      | Some (i, r) \<Rightarrow>
          (case r of
             [] \<Rightarrow> Inr (i, r)
           | c # _ \<Rightarrow>
               (if c = CHR ''.'' \<or> c = CHR ''e'' \<or> c = CHR ''E'' then Inl OutsideModel
                else Inr (i, r))))"

definition starts_with :: "string \<Rightarrow> string \<Rightarrow> bool" where
  "starts_with p s \<longleftrightarrow> take (length p) s = p"

text \<open>\<open>dict(pairs)\<close>: a repeated key keeps its first place and takes its last value.\<close>

definition dict_of_pairs :: "(string \<times> 'v) list \<Rightarrow> 'v pydict" where
  "dict_of_pairs pairs = foldl (\<lambda>d (k, v). dict_set k v d) [] pairs"

text \<open>
  The recursive-descent decoder. The first argument bounds the depth of the recursion;
  when it is used up the answer is \<open>OutsideModel\<close>. \<open>parse_items\<close> reads the items of
  a non-empty array up to and including the closing bracket, \<open>parse_members\<close> the
  members of a non-empty object up to and including the closing brace. A text that
  starts with \<open>N\<close>, \<open>I\<close> or \<open>-I\<close> may be one of the constants \<open>NaN\<close>,
  \<open>Infinity\<close> and \<open>-Infinity\<close>, which are floats.
\<close>

fun parse_value :: "nat \<Rightarrow> string \<Rightarrow> error + json \<times> string"
  and parse_items :: "nat \<Rightarrow> string \<Rightarrow> error + json list \<times> string"
  and parse_members :: "nat \<Rightarrow> string \<Rightarrow> error + (string \<times> json) list \<times> string" where
  "parse_value 0 s = Inl OutsideModel"
| "parse_value (Suc n) s =
     (case s of
        [] \<Rightarrow> Inl JSONDecodeError
      | c # r \<Rightarrow>
          (if c = dq then
             (case scanstring r of
                Inl e \<Rightarrow> Inl e
              | Inr (str, r') \<Rightarrow> Inr (JStr str, r'))
           else if c = CHR ''['' then
             (case skip_ws r of
                [] \<Rightarrow> Inl JSONDecodeError
              | c' # r' \<Rightarrow>
                  (if c' = CHR '']'' then Inr (JArr [], r')
                   else (case parse_items n (c' # r') of
                           Inl e \<Rightarrow> Inl e
                         | Inr (xs, r'') \<Rightarrow> Inr (JArr xs, r''))))
           else if c = CHR ''{'' then
             (case skip_ws r of
                [] \<Rightarrow> Inl JSONDecodeError
              | c' # r' \<Rightarrow>
                  (if c' = CHR ''}'' then Inr (JObj [], r')
                   else (case parse_members n (c' # r') of
                           Inl e \<Rightarrow> Inl e
                         | Inr (ms, r'') \<Rightarrow> Inr (JObj (dict_of_pairs ms), r''))))
           else if starts_with ''null'' s then Inr (JNull, drop 4 s)
           else if starts_with ''true'' s then Inr (JBool True, drop 4 s)
           else if starts_with ''false'' s then Inr (JBool False, drop 5 s)
           else if c = CHR ''N'' \<or> c = CHR ''I'' \<or> starts_with ''-I'' s then Inl OutsideModel
           else (case scan_int s of
                   Inl e \<Rightarrow> Inl e
                 | Inr (i, r') \<Rightarrow> Inr (JInt i, r'))))"
| "parse_items 0 s = Inl OutsideModel"
| "parse_items (Suc n) s =
     (case parse_value n s of
        Inl e \<Rightarrow> Inl e
      | Inr (v, r) \<Rightarrow>
          (case skip_ws r of
             [] \<Rightarrow> Inl JSONDecodeError
           | c # r' \<Rightarrow>
               (if c = CHR '']'' then Inr ([v], r')
                else if c = CHR '','' then
                  (case parse_items n (skip_ws r') of
                     Inl e \<Rightarrow> Inl e
                   | Inr (vs, r'') \<Rightarrow> Inr (v # vs, r''))
                else Inl JSONDecodeError)))"
| "parse_members 0 s = Inl OutsideModel"
| "parse_members (Suc n) s =
     (case s of
        [] \<Rightarrow> Inl JSONDecodeError
      | c # r \<Rightarrow>
          (if c \<noteq> dq then Inl JSONDecodeError
           else
             (case scanstring r of
                Inl e \<Rightarrow> Inl e
              | Inr (key, r1) \<Rightarrow>
                  (case skip_ws r1 of
                     [] \<Rightarrow> Inl JSONDecodeError
                   | c2 # r2 \<Rightarrow>
                       (if c2 \<noteq> CHR '':'' then Inl JSONDecodeError
                        else
                          (case parse_value n (skip_ws r2) of
                             Inl e \<Rightarrow> Inl e
                           | Inr (v, r3) \<Rightarrow>
                               (case skip_ws r3 of
                                  [] \<Rightarrow> Inl JSONDecodeError
                                | c4 # r4 \<Rightarrow>
                                    (if c4 = CHR ''}'' then Inr ([(key, v)], r4)
                                     else if c4 = CHR '','' then
                                       (case parse_members n (skip_ws r4) of
                                          Inl e \<Rightarrow> Inl e
                                        | Inr (ms, r5) \<Rightarrow> Inr ((key, v) # ms, r5))
                                     else Inl JSONDecodeError))))))))"

text \<open>
  \<open>json.load(file)\<close> of the example library. A byte of \<open>0xF5\<close> or more stands in no
  UTF-8 text, so that decoding the file raises; other bytes of \<open>0x80\<close> or more may or
  may not form UTF-8 text and are not covered. An ASCII document is parsed: white space,
  one value, white space, and nothing else (anything else is "extra data").
\<close>

definition example_json_load :: "string \<Rightarrow> error + json" where
  "example_json_load content =
     (if \<not> list_all (\<lambda>c. (of_char c :: nat) < 0xF5) content then Inl UnicodeDecodeError
      else if \<not> ascii content \<or> \<not> small content then Inl OutsideModel
      else
        (case parse_value (Suc (length content)) (skip_ws content) of
           Inl e \<Rightarrow> Inl e
         | Inr (v, r) \<Rightarrow> (if skip_ws r = [] then Inr v else Inl JSONDecodeError)))"

subsection \<open>Versions\<close>

text \<open>
  \<open>pkg_resources.parse_version\<close> on a release number: decimal numbers separated by
  dots, in a string of at most 64 characters. The value is the list of the numbers without
  its trailing zeros, and two such lists are compared number by number, so that \<open>1.4\<close>
  and \<open>1.4.0\<close> are the same version. Every other string (a pre-release, a
  post-release, a local version, white space around the number, a string that is not a
  version) is outside the example library.
\<close>

fun split_dots :: "string \<Rightarrow> string list" where
  "split_dots [] = [[]]"
| "split_dots (c # cs) =
     (if c = CHR ''.'' then [] # split_dots cs
      else (case split_dots cs of
              [] \<Rightarrow> [[c]]
            | p # ps \<Rightarrow> (c # p) # ps))"

definition strip_zeros :: "nat list \<Rightarrow> nat list" where
  "strip_zeros ns = rev (dropWhile (\<lambda>n. n = 0) (rev ns))"

definition example_parse_version :: "string \<Rightarrow> error + nat list" where
  "example_parse_version str =
     (let parts = split_dots str in
      if length str \<le> 64 \<and> list_all (\<lambda>p. p \<noteq> [] \<and> list_all is_digit p) parts
      then Inr (strip_zeros (map nat_of_digits parts))
      else Inl OutsideModel)"

fun release_less :: "nat list \<Rightarrow> nat list \<Rightarrow> bool" where
  "release_less [] [] = False"
| "release_less [] (y # ys) = True"
| "release_less (x # xs) [] = False"
| "release_less (x # xs) (y # ys) = (x < y \<or> (x = y \<and> release_less xs ys))"

subsection \<open>The example environment\<close>

text \<open>
  The running version \<open>1.4.0\<close>, a registry with a keyboard and a mouse, a symbol table
  that knows two names, and a macro parser that knows one macro and raises on every other
  text. A value that is not a string is no macro, and the symbol table does not cover it.
  \<open>str\<close> is covered on \<open>None\<close> and on the booleans.
\<close>

definition example_env :: "nat list env" where
  "example_env =
     \<lparr>VERSION = ''1.4.0'',
      json_load = example_json_load,
      json_dump = example_json_dump,
      parse_version = example_parse_version,
      version_less = release_less,
      is_this_a_macro = (\<lambda>symbol.
         case symbol of
           JStr name \<Rightarrow> CHR ''('' \<in> set name \<and> CHR '')'' \<in> set name
         | _ \<Rightarrow> False),
      parse_capabilities = (\<lambda>symbol.
         if symbol = JStr ''mouse(up, 1)'' then Inr \<lparr>EV_KEY = {}, EV_REL = {Some 1}\<rparr>
         else Inl CollaboratorError),
      system_mapping_get = (\<lambda>symbol.
         case symbol of
           JStr name \<Rightarrow>
             Inr (if name = ''a'' then Some 30
                  else if name = ''btn_left'' then Some 272
                  else None)
         | _ \<Rightarrow> Inl OutsideModel),
      py_str = (\<lambda>v.
         case v of
           JNull \<Rightarrow> Inr ''None''
         | JBool b \<Rightarrow> Inr (if b then ''True'' else ''False'')
         | _ \<Rightarrow> Inl OutsideModel),
      devices =
        [(''keyboard'', \<lparr>EV_KEY = {Some 30, Some 31}, EV_REL = {}\<rparr>),
         (''mouse'', \<lparr>EV_KEY = {Some 272}, EV_REL = {Some 0, Some 1}\<rparr>)]\<rparr>"


section \<open>What the proofs take from the libraries\<close>

text \<open>
  A value as \<open>json.load\<close> builds it: every dict has each key once.
\<close>

fun unique_keys :: "json \<Rightarrow> bool" where
  "unique_keys (JArr xs) = (\<forall>x \<in> set xs. unique_keys x)"
| "unique_keys (JObj ms) = (distinct (map fst ms) \<and> (\<forall>m \<in> set ms. unique_keys (snd m)))"
| "unique_keys v = True"

text \<open>
  The codec reads back what it has written: \<open>json.load\<close> returns Python values, and
  on a document that \<open>json.dump\<close> has written, followed or not by a line break, it
  returns the value that was written.
\<close>

definition codec_laws :: "'ver env \<Rightarrow> bool" where
  "codec_laws env \<longleftrightarrow>
     (\<forall>content v. json_load env content = Inr v \<longrightarrow> unique_keys v) \<and>
     (\<forall>v text. unique_keys v \<and> json_dump env v = Inr text \<longrightarrow>
        json_load env text = Inr v \<and> json_load env (text @ [nl]) = Inr v)"

text \<open>
  The comparison of versions is a strict order in which being at least as large is
  transitive, and \<open>0.0.0\<close>, \<open>0.4.0\<close> and \<open>1.2.2\<close> are versions in this order.
\<close>

definition version_laws :: "'ver env \<Rightarrow> bool" where
  "version_laws env \<longleftrightarrow>
     (\<forall>a. \<not> version_less env a a) \<and>
     (\<forall>a b c. version_less env a b \<and> version_less env b c \<longrightarrow> version_less env a c) \<and>
     (\<forall>a b c. \<not> version_less env a b \<and> \<not> version_less env b c \<longrightarrow> \<not> version_less env a c) \<and>
     (\<exists>z t u. parse_version env ''0.0.0'' = Inr z \<and> parse_version env ''0.4.0'' = Inr t \<and>
        parse_version env ''1.2.2'' = Inr u \<and> version_less env z t \<and> version_less env t u)"

section \<open>Properties of the key normalization\<close>


definition legacy_key :: "string \<Rightarrow> bool" where
  "legacy_key k \<longleftrightarrow> count_list k (CHR '','') = 1"

lemma legacy_key_append [simp]: "\<not> legacy_key (k @ '',1'') \<or> \<not> legacy_key k"
  by (auto simp: legacy_key_def)

lemma butlast_suffix [simp]: "butlast (butlast (k @ '',1'')) = k"
  by (simp add: butlast_append)

lemma dict_get_keys: "dict_get d k \<noteq> None \<longleftrightarrow> k \<in> set (dict_keys d)"
  by (induction d) (auto simp: dict_keys_def)

lemma dict_get_set [simp]: "dict_get (dict_set k v d) x = (if x = k then Some v else dict_get d x)"
  by (induction d) auto

lemma map_fst_dict_set:
  "map fst (dict_set k v d) = (if k \<in> fst ` set d then map fst d else map fst d @ [k])"
  by (induction d) force+

lemma dict_keys_set: "set (dict_keys (dict_set k v d)) = insert k (set (dict_keys d))"
  by (auto simp: dict_keys_def map_fst_dict_set)

lemma distinct_dict_set: "distinct (dict_keys d) \<Longrightarrow> distinct (dict_keys (dict_set k v d))"
  by (auto simp: dict_keys_def map_fst_dict_set)

lemma length_dict_set:
  "length (dict_set k v d) = (if k \<in> set (dict_keys d) then length d else Suc (length d))"
  by (induction d) (force simp: dict_keys_def)+

lemma dict_pop_Some:
  "dict_get d k = Some v \<Longrightarrow> \<exists>d'. dict_pop k d = Inr (v, d')"
  by (induction d) (auto split: if_splits)

lemma dict_pop_get:
  "distinct (dict_keys d) \<Longrightarrow> dict_pop k d = Inr (v, d') \<Longrightarrow>
     dict_get d k = Some v \<and> (\<forall>x. dict_get d' x = (if x = k then None else dict_get d x))"
proof (induction d arbitrary: d')
  case Nil
  then show ?case by simp
next
  case (Cons a d)
  obtain k' w where a: "a = (k', w)" by (cases a)
  show ?case
  proof (cases "k' = k")
    case True
    with Cons.prems a have "v = w" "d' = d" "k \<notin> set (dict_keys d)"
      by (auto simp: dict_keys_def)
    then show ?thesis using True a dict_get_keys [of d k] by auto
  next
    case False
    with Cons.prems a obtain d0 where d0: "dict_pop k d = Inr (v, d0)" "d' = (k', w) # d0"
      by (auto split: sum.splits)
    from Cons.prems have "distinct (dict_keys d)" by (simp add: dict_keys_def)
    from Cons.IH [OF this d0(1)] show ?thesis using False a d0(2) by auto
  qed
qed

lemma dict_pop_keys:
  "distinct (dict_keys d) \<Longrightarrow> dict_pop k d = Inr (v, d') \<Longrightarrow>
     distinct (dict_keys d') \<and> set (dict_keys d') = set (dict_keys d) - {k} \<and> length d = Suc (length d')"
proof (induction d arbitrary: d')
  case Nil
  then show ?case by simp
next
  case (Cons a d)
  obtain k' w where a: "a = (k', w)" by (cases a)
  show ?case
  proof (cases "k' = k")
    case True
    with Cons.prems a show ?thesis by (auto simp: dict_keys_def)
  next
    case False
    with Cons.prems a obtain d0 where d0: "dict_pop k d = Inr (v, d0)" "d' = (k', w) # d0"
      by (auto split: sum.splits)
    from Cons.prems have "distinct (dict_keys d)" by (simp add: dict_keys_def)
    from Cons.IH [OF this d0(1)] show ?thesis using False a d0(2) Cons.prems
      by (auto simp: dict_keys_def)
  qed
qed


lemma mapping_keys_loop_char:
  assumes "distinct ks" "distinct (dict_keys d)"
    and "\<forall>k \<in> set ks. legacy_key k \<longrightarrow> k \<in> set (dict_keys d)"
  shows "\<exists>r. mapping_keys_loop ks d = Inr r \<and> distinct (dict_keys r) \<and>
           (\<forall>x. dict_get r x =
              (if \<exists>k \<in> set ks. legacy_key k \<and> x = k @ '',1'' then dict_get d (butlast (butlast x))
               else if x \<in> set ks \<and> legacy_key x then None
               else dict_get d x))"
  using assms
proof (induction ks arbitrary: d)
  case Nil
  then show ?case by simp
next
  case (Cons key keys)
  show ?case
  proof (cases "legacy_key key")
    case False
    from Cons.prems have "\<exists>r. mapping_keys_loop keys d = Inr r \<and> distinct (dict_keys r) \<and>
           (\<forall>x. dict_get r x =
              (if \<exists>k \<in> set keys. legacy_key k \<and> x = k @ '',1'' then dict_get d (butlast (butlast x))
               else if x \<in> set keys \<and> legacy_key x then None
               else dict_get d x))"
      by (intro Cons.IH) auto
    then obtain r where r: "mapping_keys_loop keys d = Inr r" "distinct (dict_keys r)"
      "\<And>x. dict_get r x =
              (if \<exists>k \<in> set keys. legacy_key k \<and> x = k @ '',1'' then dict_get d (butlast (butlast x))
               else if x \<in> set keys \<and> legacy_key x then None
               else dict_get d x)" by blast
    have "mapping_keys_loop (key # keys) d = Inr r"
      using False r(1) by (simp add: legacy_key_def)
    moreover have "dict_get r x =
              (if \<exists>k \<in> set (key # keys). legacy_key k \<and> x = k @ '',1'' then dict_get d (butlast (butlast x))
               else if x \<in> set (key # keys) \<and> legacy_key x then None
               else dict_get d x)" for x
      using r(3) [of x] False by auto
    ultimately show ?thesis using r(2) by blast
  next
    case True
    with Cons.prems have "key \<in> set (dict_keys d)" by simp
    then obtain v where v: "dict_get d key = Some v"
      using dict_get_keys [of d key] by auto
    from dict_pop_Some [OF this] obtain d' where d': "dict_pop key d = Inr (v, d')" ..
    note pg = dict_pop_get [OF Cons.prems(2) d'] and pk = dict_pop_keys [OF Cons.prems(2) d']
    let ?d2 = "dict_set (key @ '',1'') v d'"
    have dist2: "distinct (dict_keys ?d2)" using pk by (simp add: distinct_dict_set)
    have keys2: "\<forall>k \<in> set keys. legacy_key k \<longrightarrow> k \<in> set (dict_keys ?d2)"
      using Cons.prems pk by (auto simp: dict_keys_set)
    from Cons.prems(1) have "distinct keys" by simp
    from Cons.IH [OF this dist2 keys2]
    obtain r where r: "mapping_keys_loop keys ?d2 = Inr r" "distinct (dict_keys r)"
      "\<And>x. dict_get r x =
              (if \<exists>k \<in> set keys. legacy_key k \<and> x = k @ '',1'' then dict_get ?d2 (butlast (butlast x))
               else if x \<in> set keys \<and> legacy_key x then None
               else dict_get ?d2 x)" by blast
    have run: "mapping_keys_loop (key # keys) d = Inr r"
      using True r(1) d' by (simp add: legacy_key_def)
    have notin: "key \<notin> set keys" using Cons.prems(1) by simp
    have "dict_get r x =
              (if \<exists>k \<in> set (key # keys). legacy_key k \<and> x = k @ '',1'' then dict_get d (butlast (butlast x))
               else if x \<in> set (key # keys) \<and> legacy_key x then None
               else dict_get d x)" for x
    proof (cases "\<exists>k \<in> set keys. legacy_key k \<and> x = k @ '',1''")
      case True
      then obtain k where k: "k \<in> set keys" "legacy_key k" "x = k @ '',1''" by blast
      have "k \<noteq> key" using k(1) notin by auto
      moreover have "k \<noteq> key @ '',1''" using k(2) \<open>legacy_key key\<close> legacy_key_append [of key] by auto
      ultimately have "dict_get ?d2 k = dict_get d k" using pg by simp
      then show ?thesis using r(3) [of x] k by auto
    next
      case F1: False
      show ?thesis
      proof (cases "x = key @ '',1''")
        case True
        have "\<not> legacy_key x" using True \<open>legacy_key key\<close> legacy_key_append [of key] by auto
        then show ?thesis using r(3) [of x] F1 True v \<open>legacy_key key\<close> by auto
      next
        case False
        then show ?thesis using r(3) [of x] F1 pg notin \<open>legacy_key key\<close> by auto
      qed
    qed
    then show ?thesis using run r(2) by blast
  qed
qed


lemma mapping_keys_loop_id:
  "\<forall>k \<in> set ks. \<not> legacy_key k \<Longrightarrow> mapping_keys_loop ks d = Inr d"
  by (induction ks) (auto simp: legacy_key_def)

lemma normalize_mapping_char:
  assumes "distinct (dict_keys m)"
  shows "\<exists>r. normalize_mapping m = Inr r \<and> distinct (dict_keys r) \<and>
           (\<forall>x. dict_get r x =
              (if \<exists>k \<in> set (dict_keys m). legacy_key k \<and> x = k @ '',1'' then dict_get m (butlast (butlast x))
               else if legacy_key x then None
               else dict_get m x))"
proof -
  from mapping_keys_loop_char [OF assms assms]
  obtain r where r: "mapping_keys_loop (dict_keys m) m = Inr r" "distinct (dict_keys r)"
     "\<And>x. dict_get r x =
              (if \<exists>k \<in> set (dict_keys m). legacy_key k \<and> x = k @ '',1'' then dict_get m (butlast (butlast x))
               else if x \<in> set (dict_keys m) \<and> legacy_key x then None
               else dict_get m x)" by blast
  have "dict_get r x =
              (if \<exists>k \<in> set (dict_keys m). legacy_key k \<and> x = k @ '',1'' then dict_get m (butlast (butlast x))
               else if legacy_key x then None
               else dict_get m x)" for x
    using r(3) [of x] dict_get_keys [of m x] by auto
  with r(1,2) show ?thesis by (auto simp: normalize_mapping_def)
qed

lemma normalize_mapping_no_legacy:
  assumes "distinct (dict_keys m)" "normalize_mapping m = Inr r"
  shows "\<forall>k \<in> set (dict_keys r). \<not> legacy_key k"
proof
  fix k assume "k \<in> set (dict_keys r)"
  then have "dict_get r k \<noteq> None" using dict_get_keys [of r k] by blast
  moreover from normalize_mapping_char [OF assms(1)] assms(2)
  have "dict_get r k =
              (if \<exists>k' \<in> set (dict_keys m). legacy_key k' \<and> k = k' @ '',1'' then dict_get m (butlast (butlast k))
               else if legacy_key k then None
               else dict_get m k)" by auto
  ultimately show "\<not> legacy_key k"
    using legacy_key_append by (auto split: if_splits)
qed

lemma normalize_mapping_idem:
  assumes "distinct (dict_keys m)" "normalize_mapping m = Inr r"
  shows "normalize_mapping r = Inr r"
  using normalize_mapping_no_legacy [OF assms]
  by (simp add: normalize_mapping_def mapping_keys_loop_id)

text \<open>
  Claim C3. Key normalization, for a mapping with unique keys (a Python dict), always
  succeeds and:
  \<^item> every key with exactly one separator is removed and its value is stored under the
    key with \<open>,1\<close> appended;
  \<^item> every other key of the mapping (in particular a key in 3-component form) is still a
    key of the result, and keeps its value unless it is the counterpart \<open>k,1\<close> of a
    2-component key \<open>k\<close> of the mapping;
  \<^item> the transform applied to its own result returns that result.
\<close>

theorem mapping_keys_normalization:
  assumes "distinct (dict_keys m)"
  shows "\<exists>m'. normalize_mapping m = Inr m' \<and>
    (\<forall>k v. legacy_key k \<and> dict_get m k = Some v \<longrightarrow>
        dict_get m' (k @ '',1'') = Some v \<and> dict_get m' k = None) \<and>
    (\<forall>k. \<not> legacy_key k \<and> k \<in> set (dict_keys m) \<longrightarrow>
        k \<in> set (dict_keys m') \<and>
        ((\<forall>k0 \<in> set (dict_keys m). legacy_key k0 \<longrightarrow> k \<noteq> k0 @ '',1'') \<longrightarrow>
           dict_get m' k = dict_get m k)) \<and>
    normalize_mapping m' = Inr m'"
proof -
  from normalize_mapping_char [OF assms]
  obtain r where r: "normalize_mapping m = Inr r"
     "\<And>x. dict_get r x =
              (if \<exists>k \<in> set (dict_keys m). legacy_key k \<and> x = k @ '',1'' then dict_get m (butlast (butlast x))
               else if legacy_key x then None
               else dict_get m x)" by blast
  have a: "dict_get r (k @ '',1'') = Some v \<and> dict_get r k = None"
    if "legacy_key k" "dict_get m k = Some v" for k v
  proof -
    have "k \<in> set (dict_keys m)" using that(2) dict_get_keys [of m k] by simp
    then have "dict_get r (k @ '',1'') = Some v"
      using r(2) [of "k @ '',1''"] that by auto
    moreover have "dict_get r k = None"
      using r(2) [of k] that(1) legacy_key_append by auto
    ultimately show ?thesis by simp
  qed
  have b: "k \<in> set (dict_keys r) \<and>
        ((\<forall>k0 \<in> set (dict_keys m). legacy_key k0 \<longrightarrow> k \<noteq> k0 @ '',1'') \<longrightarrow>
           dict_get r k = dict_get m k)"
    if "\<not> legacy_key k" "k \<in> set (dict_keys m)" for k
  proof -
    have m: "dict_get m k \<noteq> None" using that(2) dict_get_keys [of m k] by blast
    have "dict_get r k \<noteq> None"
    proof (cases "\<exists>k0 \<in> set (dict_keys m). legacy_key k0 \<and> k = k0 @ '',1''")
      case True
      then obtain k0 where "k0 \<in> set (dict_keys m)" "legacy_key k0" "k = k0 @ '',1''" by blast
      then show ?thesis using r(2) [of k] dict_get_keys [of m k0] by auto
    next
      case False
      then show ?thesis using r(2) [of k] that(1) m by auto
    qed
    moreover have "dict_get r k = dict_get m k"
      if "\<forall>k0 \<in> set (dict_keys m). legacy_key k0 \<longrightarrow> k \<noteq> k0 @ '',1''"
      using r(2) [of k] that \<open>\<not> legacy_key k\<close> by auto
    ultimately show ?thesis using dict_get_keys [of r k] by blast
  qed
  from a b r(1) normalize_mapping_idem [OF assms r(1)] show ?thesis by blast
qed


theorem mapping_keys_normalization_witness:
  "distinct (dict_keys [(''1,5'', JStr ''a''), (''1,6,1'', JStr ''b'')]) \<and>
   legacy_key ''1,5'' \<and> \<not> legacy_key ''1,6,1'' \<and>
   normalize_mapping [(''1,5'', JStr ''a''), (''1,6,1'', JStr ''b'')]
     = Inr [(''1,6,1'', JStr ''b''), (''1,5,1'', JStr ''a'')] \<and>
   normalize_mapping [(''1,6,1'', JStr ''b''), (''1,5,1'', JStr ''a'')]
     = Inr [(''1,6,1'', JStr ''b''), (''1,5,1'', JStr ''a'')]"
proof -
  let ?m = "[(''1,5'', JStr ''a''), (''1,6,1'', JStr ''b'')]"
  have d: "distinct (dict_keys ?m)" by (simp add: dict_keys_def)
  have n: "normalize_mapping ?m = Inr [(''1,6,1'', JStr ''b''), (''1,5,1'', JStr ''a'')]"
    by (simp add: normalize_mapping_def dict_keys_def)
  from mapping_keys_normalization [OF d] n
  have "normalize_mapping [(''1,6,1'', JStr ''b''), (''1,5,1'', JStr ''a'')]
     = Inr [(''1,6,1'', JStr ''b''), (''1,5,1'', JStr ''a'')]" by auto
  with d n show ?thesis by (simp add: legacy_key_def)
qed

lemma mapping_keys_loop_length:
  assumes "distinct ks" "distinct (dict_keys d)"
    and "\<forall>k \<in> set ks. legacy_key k \<longrightarrow> k \<in> set (dict_keys d)"
    and "mapping_keys_loop ks d = Inr r"
  shows "length r \<le> length d \<and>
         ((\<exists>k \<in> set ks. legacy_key k \<and> k @ '',1'' \<in> set (dict_keys d)) \<longrightarrow> length r < length d)"
  using assms
proof (induction ks arbitrary: d)
  case Nil
  then show ?case by simp
next
  case (Cons key keys)
  show ?case
  proof (cases "legacy_key key")
    case False
    with Cons.prems have "mapping_keys_loop keys d = Inr r" by (simp add: legacy_key_def)
    with Cons.prems have "length r \<le> length d \<and>
         ((\<exists>k \<in> set keys. legacy_key k \<and> k @ '',1'' \<in> set (dict_keys d)) \<longrightarrow> length r < length d)"
      by (intro Cons.IH) auto
    with False show ?thesis by auto
  next
    case True
    with Cons.prems have "key \<in> set (dict_keys d)" by simp
    then obtain v where v: "dict_get d key = Some v"
      using dict_get_keys [of d key] by auto
    from dict_pop_Some [OF this] obtain d' where d': "dict_pop key d = Inr (v, d')" ..
    note pk = dict_pop_keys [OF Cons.prems(2) d']
    let ?d2 = "dict_set (key @ '',1'') v d'"
    have run: "mapping_keys_loop keys ?d2 = Inr r"
      using Cons.prems(4) True d' by (simp add: legacy_key_def)
    have dist2: "distinct (dict_keys ?d2)" using pk by (simp add: distinct_dict_set)
    have keys2: "\<forall>k \<in> set keys. legacy_key k \<longrightarrow> k \<in> set (dict_keys ?d2)"
      using Cons.prems pk by (auto simp: dict_keys_set)
    from Cons.prems(1) have "distinct keys" by simp
    note IH = Cons.IH [OF this dist2 keys2 run]
    have len2: "length ?d2 = (if key @ '',1'' \<in> set (dict_keys d) then length d' else Suc (length d'))"
      using pk by (auto simp: length_dict_set)
    have le: "length ?d2 \<le> length d" using len2 pk by auto
    have "length r < length d"
      if "\<exists>k \<in> set (key # keys). legacy_key k \<and> k @ '',1'' \<in> set (dict_keys d)"
    proof (cases "key @ '',1'' \<in> set (dict_keys d)")
      case True
      then have "length ?d2 < length d" using len2 pk by auto
      with IH show ?thesis by auto
    next
      case False
      with that obtain k where k: "k \<in> set keys" "legacy_key k" "k @ '',1'' \<in> set (dict_keys d)"
        by auto
      have "k @ '',1'' \<noteq> key" using k(2) True legacy_key_append [of k] by auto
      then have "k @ '',1'' \<in> set (dict_keys ?d2)" using k(3) pk by (auto simp: dict_keys_set)
      with k IH have "length r < length ?d2" by blast
      with le show ?thesis by simp
    qed
    with IH le show ?thesis by auto
  qed
qed

text \<open>
  Claim C10. In a mapping with unique keys that holds both a key \<open>k\<close> with exactly one
  separator and its counterpart \<open>k,1\<close>, the normalization succeeds, stores the value of
  \<open>k\<close> under \<open>k,1\<close> in place of the value that was there, removes \<open>k\<close>, and the
  result has fewer entries than the mapping.
\<close>

theorem mapping_keys_collision:
  assumes "distinct (dict_keys m)" "legacy_key k"
    and "dict_get m k = Some v" "dict_get m (k @ '',1'') = Some w"
  shows "\<exists>m'. normalize_mapping m = Inr m' \<and> dict_get m' (k @ '',1'') = Some v \<and>
              dict_get m' k = None \<and> length m' < length m"
proof -
  from normalize_mapping_char [OF assms(1)]
  obtain r where r: "normalize_mapping m = Inr r"
     "\<And>x. dict_get r x =
              (if \<exists>k \<in> set (dict_keys m). legacy_key k \<and> x = k @ '',1'' then dict_get m (butlast (butlast x))
               else if legacy_key x then None
               else dict_get m x)" by blast
  have km: "k \<in> set (dict_keys m)" using assms(3) dict_get_keys [of m k] by simp
  have k1m: "k @ '',1'' \<in> set (dict_keys m)" using assms(4) dict_get_keys [of m "k @ '',1''"] by simp
  have "dict_get r (k @ '',1'') = Some v" using r(2) [of "k @ '',1''"] km assms(2,3) by auto
  moreover have "dict_get r k = None" using r(2) [of k] assms(2) legacy_key_append by auto
  moreover have "length r < length m"
    using mapping_keys_loop_length [OF assms(1) assms(1), of r] r(1) km k1m assms(2)
    by (auto simp: normalize_mapping_def)
  ultimately show ?thesis using r(1) by blast
qed

theorem mapping_keys_collision_witness:
  "distinct (dict_keys [(''1,5'', JStr ''new''), (''1,5,1'', JStr ''old'')]) \<and>
   legacy_key ''1,5'' \<and>
   dict_get [(''1,5'', JStr ''new''), (''1,5,1'', JStr ''old'')] ''1,5'' = Some (JStr ''new'') \<and>
   dict_get [(''1,5'', JStr ''new''), (''1,5,1'', JStr ''old'')] (''1,5'' @ '',1'') = Some (JStr ''old'') \<and>
   normalize_mapping [(''1,5'', JStr ''new''), (''1,5,1'', JStr ''old'')] = Inr [(''1,5,1'', JStr ''new'')] \<and>
   dict_get [(''1,5,1'', JStr ''new'')] (''1,5'' @ '',1'') = Some (JStr ''new'') \<and>
   dict_get [(''1,5,1'', JStr ''new'') :: string \<times> json] ''1,5'' = None"
proof -
  let ?m = "[(''1,5'', JStr ''new''), (''1,5,1'', JStr ''old'')]"
  have d: "distinct (dict_keys ?m)" by (simp add: dict_keys_def)
  have l: "legacy_key ''1,5''" by (simp add: legacy_key_def)
  have g: "dict_get ?m ''1,5'' = Some (JStr ''new'')" by simp
  have g1: "dict_get ?m (''1,5'' @ '',1'') = Some (JStr ''old'')" by simp
  have n: "normalize_mapping ?m = Inr [(''1,5,1'', JStr ''new'')]"
    by (simp add: normalize_mapping_def dict_keys_def)
  from mapping_keys_collision [OF d l g g1] n
  have "dict_get [(''1,5,1'', JStr ''new'')] (''1,5'' @ '',1'') = Some (JStr ''new'') \<and>
        dict_get [(''1,5,1'', JStr ''new'') :: string \<times> json] ''1,5'' = None"
    by auto
  with d l g g1 n show ?thesis by blast
qed

section \<open>Properties of the target resolution\<close>

lemma first_capable_first:
  "ds = before @ (name, uinput) # after \<Longrightarrow>
   \<forall>(n, u) \<in> set before. \<not> required \<subseteq> EV_KEY u \<Longrightarrow>
   required \<subseteq> EV_KEY uinput \<Longrightarrow> first_capable required ds = Some name"
proof (induction before arbitrary: ds)
  case Nil
  then show ?case by simp
next
  case (Cons a before)
  then show ?case by (cases a) simp_all
qed

lemma first_capable_none:
  "\<forall>(n, u) \<in> set ds. \<not> required \<subseteq> EV_KEY u \<Longrightarrow> first_capable required ds = None"
proof (induction ds)
  case Nil
  then show ?case by simp
next
  case (Cons a ds)
  then show ?case by (cases a) simp_all
qed

lemma is_list_simps [simp]:
  "is_list (JArr xs)" "\<not> is_list (JStr s)" "\<not> is_list JNull" "\<not> is_list (JBool b)"
  "\<not> is_list (JInt i)" "\<not> is_list (JFloat x)" "\<not> is_list (JObj ms)"
  by (simp_all add: is_list_def)

lemma add_target_loop_get:
  assumes "distinct (map fst items)" "add_target_loop env items m = Inr r"
  shows "(k \<notin> fst ` set items \<longrightarrow> dict_get r k = dict_get m k) \<and>
         (\<forall>v. (k, v) \<in> set items \<and> is_list v \<longrightarrow> dict_get r k = dict_get m k) \<and>
         (\<forall>symbol. (k, symbol) \<in> set items \<and> \<not> is_list symbol \<longrightarrow>
            (\<exists>target pair. find_target env symbol = Inr target \<and>
                with_target env symbol target = Inr pair \<and> dict_get r k = Some pair))"
  using assms
proof (induction items arbitrary: m)
  case Nil
  then show ?case by simp
next
  case (Cons item items)
  obtain key symbol where item: "item = (key, symbol)" by (cases item)
  from Cons.prems item have d: "distinct (map fst items)" and notin: "key \<notin> fst ` set items"
    by auto
  show ?case
  proof (cases "is_list symbol")
    case True
    with Cons.prems item have run: "add_target_loop env items m = Inr r" by simp
    note IH = Cons.IH [OF d run]
    show ?thesis
    proof (cases "k = key")
      case True
      with IH notin have "dict_get r k = dict_get m k" by simp
      with True item notin \<open>is_list symbol\<close> show ?thesis by (auto simp: rev_image_eqI)
    next
      case False
      with IH item show ?thesis by auto
    qed
  next
    case False
    with Cons.prems item obtain target pair where t: "find_target env symbol = Inr target"
      and w: "with_target env symbol target = Inr pair"
      and run: "add_target_loop env items (dict_set key pair m) = Inr r"
      by (auto split: sum.splits)
    note IH = Cons.IH [OF d run]
    show ?thesis
    proof (cases "k = key")
      case True
      with IH notin have "dict_get r k = Some pair" by simp
      with True t w notin item False show ?thesis by (auto simp: rev_image_eqI)
    next
      case False
      with IH item show ?thesis by auto
    qed
  qed
qed

lemma dict_get_mem: "dict_get d k = Some v \<Longrightarrow> (k, v) \<in> set d"
  by (induction d) (auto split: if_splits)

lemma find_target_cases:
  assumes "required_capabilities env symbol = Inr caps"
  shows "find_target env symbol =
           (if EV_REL caps \<noteq> {} then Inr (Some ''mouse'')
            else Inr (first_capable (EV_KEY caps) (devices env)))"
  using assms by (simp add: find_target_def)

lemma with_target_str:
  "with_target env (JStr symbol) target =
     Inr (case target of
            None \<Rightarrow> JArr [JStr (symbol @ broken_mapping), JStr ''keyboard'']
          | Some name \<Rightarrow> JArr [JStr symbol, JStr name])"
  by (simp add: with_target_def format_symbol_def split: option.splits)

definition example_mapping :: "json pydict" where
  "example_mapping =
     [(''1,5,1'', JStr ''a''),
      (''1,6,1'', JStr ''btn_left''),
      (''1,7,1'', JStr ''zz''),
      (''1,8,1'', JStr ''mouse(up, 1)''),
      (''1,9,1'', JArr [JStr ''b'', JStr ''keyboard''])]"

text \<open>
  Claim C1. Let a mapping with unique keys hold the bare symbol \<open>symbol\<close> under \<open>key\<close>,
  let \<open>caps\<close> be the capabilities the symbol requires, and let the loop of
  \<open>_add_target\<close> over the mapping complete. Then:
  \<^item> if \<open>caps\<close> has a relative-motion code, the target is \<open>mouse\<close>;
  \<^item> otherwise the target is the first device of the registry, in its order, whose
    key-event codes include all key-event codes of \<open>caps\<close>;
  \<^item> if there is no such device, no target is found, and the value stored is the symbol
    with the broken-mapping remark appended, paired with \<open>keyboard\<close>.
  In each case the key is kept and holds the pair of the symbol and the target.
\<close>

theorem target_resolution:
  assumes "required_capabilities env (JStr symbol) = Inr caps"
    and "distinct (dict_keys mapping)" "dict_get mapping key = Some (JStr symbol)"
    and "add_target_loop env mapping mapping = Inr mapping'"
  shows "(EV_REL caps \<noteq> {} \<longrightarrow>
            find_target env (JStr symbol) = Inr (Some ''mouse'') \<and>
            dict_get mapping' key = Some (JArr [JStr symbol, JStr ''mouse''])) \<and>
         (EV_REL caps = {} \<longrightarrow>
            (\<forall>before name uinput after.
               devices env = before @ (name, uinput) # after \<and>
               (\<forall>(n, u) \<in> set before. \<not> EV_KEY caps \<subseteq> EV_KEY u) \<and>
               EV_KEY caps \<subseteq> EV_KEY uinput \<longrightarrow>
               find_target env (JStr symbol) = Inr (Some name) \<and>
               dict_get mapping' key = Some (JArr [JStr symbol, JStr name])) \<and>
            ((\<forall>(n, u) \<in> set (devices env). \<not> EV_KEY caps \<subseteq> EV_KEY u) \<longrightarrow>
               find_target env (JStr symbol) = Inr None \<and>
               dict_get mapping' key =
                 Some (JArr [JStr (symbol @ broken_mapping), JStr ''keyboard''])))"
proof -
  have "(key, JStr symbol) \<in> set mapping" using assms(3) by (rule dict_get_mem)
  moreover have "distinct (map fst mapping)" using assms(2) by (simp add: dict_keys_def)
  ultimately obtain target pair where t: "find_target env (JStr symbol) = Inr target"
    and w: "with_target env (JStr symbol) target = Inr pair"
    and g: "dict_get mapping' key = Some pair"
    using add_target_loop_get [OF _ assms(4), of key] by fastforce
  from w g have stored: "dict_get mapping' key =
      Some (case target of
              None \<Rightarrow> JArr [JStr (symbol @ broken_mapping), JStr ''keyboard'']
            | Some name \<Rightarrow> JArr [JStr symbol, JStr name])"
    by (simp add: with_target_str)
  note ft = find_target_cases [OF assms(1)]
  have mouse: "target = Some ''mouse''" if "EV_REL caps \<noteq> {}"
    using t ft that by simp
  have first: "target = Some name"
    if "EV_REL caps = {}" "devices env = before @ (name, uinput) # after"
       "\<forall>(n, u) \<in> set before. \<not> EV_KEY caps \<subseteq> EV_KEY u" "EV_KEY caps \<subseteq> EV_KEY uinput"
    for before name uinput after
    using t ft that(1) first_capable_first [OF that(2,3,4)] by simp
  have none: "target = None"
    if "EV_REL caps = {}" "\<forall>(n, u) \<in> set (devices env). \<not> EV_KEY caps \<subseteq> EV_KEY u"
    using t ft that(1) first_capable_none [OF that(2)] by simp
  show ?thesis
  proof (intro conjI impI allI)
    assume "EV_REL caps \<noteq> {}"
    from mouse [OF this] t stored
    show "find_target env (JStr symbol) = Inr (Some ''mouse'')"
      and "dict_get mapping' key = Some (JArr [JStr symbol, JStr ''mouse''])"
      by simp_all
  next
    fix before name uinput after
    assume "EV_REL caps = {}"
      and "devices env = before @ (name, uinput) # after \<and>
           (\<forall>(n, u) \<in> set before. \<not> EV_KEY caps \<subseteq> EV_KEY u) \<and> EV_KEY caps \<subseteq> EV_KEY uinput"
    then have "target = Some name" using first by blast
    with t stored
    show "find_target env (JStr symbol) = Inr (Some name)"
      and "dict_get mapping' key = Some (JArr [JStr symbol, JStr name])"
      by simp_all
  next
    assume "EV_REL caps = {}" "\<forall>(n, u) \<in> set (devices env). \<not> EV_KEY caps \<subseteq> EV_KEY u"
    then have "target = None" by (rule none)
    with t stored
    show "find_target env (JStr symbol) = Inr None"
      and "dict_get mapping' key = Some (JArr [JStr (symbol @ broken_mapping), JStr ''keyboard''])"
      by simp_all
  qed
qed

lemma example_find_target:
  "required_capabilities example_env (JStr ''mouse(up, 1)'') = Inr \<lparr>EV_KEY = {}, EV_REL = {Some 1}\<rparr>"
  "required_capabilities example_env (JStr ''btn_left'') = Inr \<lparr>EV_KEY = {Some 272}, EV_REL = {}\<rparr>"
  "required_capabilities example_env (JStr ''zz'') = Inr \<lparr>EV_KEY = {None}, EV_REL = {}\<rparr>"
  "required_capabilities example_env (JStr ''a'') = Inr \<lparr>EV_KEY = {Some 30}, EV_REL = {}\<rparr>"
  by (simp_all add: required_capabilities_def example_env_def)

lemma example_add_target_loop:
  "add_target_loop example_env example_mapping example_mapping =
     Inr [(''1,5,1'', JArr [JStr ''a'', JStr ''keyboard'']),
          (''1,6,1'', JArr [JStr ''btn_left'', JStr ''mouse'']),
          (''1,7,1'', JArr [JStr (''zz'' @ broken_mapping), JStr ''keyboard'']),
          (''1,8,1'', JArr [JStr ''mouse(up, 1)'', JStr ''mouse'']),
          (''1,9,1'', JArr [JStr ''b'', JStr ''keyboard''])]"
  by (simp add: example_mapping_def find_target_def example_find_target with_target_str)
     (simp add: example_env_def)

theorem target_resolution_witness:
  "required_capabilities example_env (JStr ''mouse(up, 1)'') = Inr \<lparr>EV_KEY = {}, EV_REL = {Some 1}\<rparr> \<and>
   required_capabilities example_env (JStr ''btn_left'') = Inr \<lparr>EV_KEY = {Some 272}, EV_REL = {}\<rparr> \<and>
   required_capabilities example_env (JStr ''zz'') = Inr \<lparr>EV_KEY = {None}, EV_REL = {}\<rparr> \<and>
   distinct (dict_keys example_mapping) \<and>
   (\<exists>mapping'. add_target_loop example_env example_mapping example_mapping = Inr mapping' \<and>
      find_target example_env (JStr ''mouse(up, 1)'') = Inr (Some ''mouse'') \<and>
      dict_get mapping' ''1,8,1'' = Some (JArr [JStr ''mouse(up, 1)'', JStr ''mouse'']) \<and>
      find_target example_env (JStr ''btn_left'') = Inr (Some ''mouse'') \<and>
      dict_get mapping' ''1,6,1'' = Some (JArr [JStr ''btn_left'', JStr ''mouse'']) \<and>
      find_target example_env (JStr ''zz'') = Inr None \<and>
      dict_get mapping' ''1,7,1'' = Some (JArr [JStr (''zz'' @ broken_mapping), JStr ''keyboard'']))"
proof -
  obtain mapping' where run: "add_target_loop example_env example_mapping example_mapping = Inr mapping'"
    using example_add_target_loop by blast
  have d: "distinct (dict_keys example_mapping)"
    by (simp add: example_mapping_def dict_keys_def)
  have g1: "dict_get example_mapping ''1,8,1'' = Some (JStr ''mouse(up, 1)'')"
    and g2: "dict_get example_mapping ''1,6,1'' = Some (JStr ''btn_left'')"
    and g3: "dict_get example_mapping ''1,7,1'' = Some (JStr ''zz'')"
    by (simp_all add: example_mapping_def)
  have dev: "devices example_env =
      [(''keyboard'', \<lparr>EV_KEY = {Some 30, Some 31}, EV_REL = {}\<rparr>)] @
      (''mouse'', \<lparr>EV_KEY = {Some 272}, EV_REL = {Some 0, Some 1}\<rparr>) # []"
    by (simp add: example_env_def)
  have a: "find_target example_env (JStr ''mouse(up, 1)'') = Inr (Some ''mouse'') \<and>
      dict_get mapping' ''1,8,1'' = Some (JArr [JStr ''mouse(up, 1)'', JStr ''mouse''])"
    using target_resolution [OF example_find_target(1) d g1 run] by simp
  have b: "find_target example_env (JStr ''btn_left'') = Inr (Some ''mouse'') \<and>
      dict_get mapping' ''1,6,1'' = Some (JArr [JStr ''btn_left'', JStr ''mouse''])"
  proof -
    from target_resolution [OF example_find_target(2) d g2 run]
    have "\<forall>before name uinput after.
               devices example_env = before @ (name, uinput) # after \<and>
               (\<forall>(n, u) \<in> set before. \<not> {Some 272} \<subseteq> EV_KEY u) \<and>
               {Some 272} \<subseteq> EV_KEY uinput \<longrightarrow>
               find_target example_env (JStr ''btn_left'') = Inr (Some name) \<and>
               dict_get mapping' ''1,6,1'' = Some (JArr [JStr ''btn_left'', JStr name])"
      by simp
    from this [rule_format, of "[(''keyboard'', \<lparr>EV_KEY = {Some 30, Some 31}, EV_REL = {}\<rparr>)]"
        "''mouse''" "\<lparr>EV_KEY = {Some 272}, EV_REL = {Some 0, Some 1}\<rparr>" "[]"] dev
    show ?thesis by simp
  qed
  have c: "find_target example_env (JStr ''zz'') = Inr None \<and>
      dict_get mapping' ''1,7,1'' = Some (JArr [JStr (''zz'' @ broken_mapping), JStr ''keyboard''])"
    using target_resolution [OF example_find_target(3) d g3 run]
    by (simp add: example_env_def)
  from a b c d run example_find_target show ?thesis by blast
qed


section \<open>Properties of the version store\<close>

definition broken_config :: fs where
  "broken_config = \<lparr>config_root = Some (Dir [(''config.json'', File ''{'')]), legacy_root = None\<rparr>"

lemma json_load_brace: "json_load example_env ''{'' = Inl JSONDecodeError"
  by code_simp

text \<open>
  Claim C4, as stated, fails: \<open>config_version\<close> has no handler around \<open>json.load\<close>,
  so a config file whose text is not a JSON document makes it raise.
\<close>

theorem config_version_fails:
  "config_version example_env broken_config = Inl JSONDecodeError"
  by code_simp

lemma read_file_exists: "read_file s p = Inr content \<Longrightarrow> path_exists s p"
  by (auto simp: read_file_def path_exists_def split: option.splits node.splits)

text \<open>
  Claim C4, amended. \<open>config_version\<close> returns what \<open>parse_version("0.0.0")\<close> returns
  when the config file is absent and when the file holds a JSON object with no
  \<open>version\<close> field, and what \<open>parse_version\<close> returns for the field when it holds a
  string. It can fail: whatever \<open>json.load\<close> raises on the file leaves
  \<open>config_version\<close>.
\<close>

theorem config_version_cases:
  "(\<not> path_exists s [''config.json''] \<longrightarrow>
      config_version env s = parse_version env ''0.0.0'') \<and>
   (\<forall>content config.
      read_file s [''config.json''] = Inr content \<and> json_load env content = Inr (JObj config) \<longrightarrow>
        (dict_get config ''version'' = None \<longrightarrow>
           config_version env s = parse_version env ''0.0.0'') \<and>
        (\<forall>str. dict_get config ''version'' = Some (JStr str) \<longrightarrow>
           config_version env s = parse_version env str)) \<and>
   (\<forall>content e.
      read_file s [''config.json''] = Inr content \<and> json_load env content = Inl e \<longrightarrow>
        config_version env s = Inl e)"
proof (intro conjI allI impI)
  assume "\<not> path_exists s [''config.json'']"
  then show "config_version env s = parse_version env ''0.0.0''"
    by (simp add: config_version_def)
next
  fix content config
  assume a: "read_file s [''config.json''] = Inr content \<and> json_load env content = Inr (JObj config)"
    and "dict_get config ''version'' = None"
  then show "config_version env s = parse_version env ''0.0.0''"
    using read_file_exists [of s "[''config.json'']" content]
    by (simp add: config_version_def)
next
  fix content config str
  assume a: "read_file s [''config.json''] = Inr content \<and> json_load env content = Inr (JObj config)"
    and "dict_get config ''version'' = Some (JStr str)"
  then show "config_version env s = parse_version env str"
    using read_file_exists [of s "[''config.json'']" content]
    by (simp add: config_version_def)
next
  fix content e
  assume "read_file s [''config.json''] = Inr content \<and> json_load env content = Inl e"
  then show "config_version env s = Inl e"
    using read_file_exists [of s "[''config.json'']" content]
    by (simp add: config_version_def)
qed

definition fresh_config :: fs where
  "fresh_config = \<lparr>config_root = Some (Dir [(''config.json'', File ''{}'')]), legacy_root = None\<rparr>"

definition stamped_config :: fs where
  "stamped_config =
     \<lparr>config_root = Some (Dir [(''config.json'', File (json_dumps (JObj [(''version'', JStr ''1.2.0'')])))]),
      legacy_root = None\<rparr>"

definition no_config :: fs where
  "no_config = \<lparr>config_root = Some (Dir []), legacy_root = None\<rparr>"

lemma json_load_empty_object: "json_load example_env ''{}'' = Inr (JObj [])"
  by code_simp

lemma json_load_stamped:
  "json_load example_env (json_dumps (JObj [(''version'', JStr ''1.2.0'')]))
     = Inr (JObj [(''version'', JStr ''1.2.0'')])"
  by code_simp

lemma example_versions:
  "parse_version example_env ''0.0.0'' = Inr []" "parse_version example_env ''0.4.0'' = Inr [0, 4]"
  "parse_version example_env ''1.2.0'' = Inr [1, 2]" "parse_version example_env ''1.2.2'' = Inr [1, 2, 2]"
  "parse_version example_env ''1.3.0'' = Inr [1, 3]" "parse_version example_env ''1.4.0'' = Inr [1, 4]"
  by code_simp+

theorem config_version_cases_witness:
  "\<not> path_exists no_config [''config.json''] \<and> config_version example_env no_config = Inr [] \<and>
   read_file fresh_config [''config.json''] = Inr ''{}'' \<and>
   json_load example_env ''{}'' = Inr (JObj []) \<and>
   dict_get ([] :: json pydict) ''version'' = None \<and> config_version example_env fresh_config = Inr [] \<and>
   read_file stamped_config [''config.json''] = Inr (json_dumps (JObj [(''version'', JStr ''1.2.0'')])) \<and>
   config_version example_env stamped_config = Inr [1, 2] \<and>
   read_file broken_config [''config.json''] = Inr ''{'' \<and>
   json_load example_env ''{'' = Inl JSONDecodeError \<and>
   config_version example_env broken_config = Inl JSONDecodeError"
proof -
  have a: "\<not> path_exists no_config [''config.json'']"
    by (simp add: no_config_def path_exists_def lookup_def)
  have b: "read_file fresh_config [''config.json''] = Inr ''{}''"
    by (simp add: fresh_config_def read_file_def lookup_def)
  have c: "read_file stamped_config [''config.json''] = Inr (json_dumps (JObj [(''version'', JStr ''1.2.0'')]))"
    by (simp add: stamped_config_def read_file_def lookup_def)
  have d: "read_file broken_config [''config.json''] = Inr ''{''"
    by (simp add: broken_config_def read_file_def lookup_def)
  have e: "dict_get [(''version'', JStr ''1.2.0'')] ''version'' = Some (JStr ''1.2.0'')" by simp
  note t1 = config_version_cases [of no_config example_env]
  note t2 = config_version_cases [of fresh_config example_env]
  note t3 = config_version_cases [of stamped_config example_env]
  note t4 = config_version_cases [of broken_config example_env]
  have "config_version example_env no_config = Inr []"
    using t1 a example_versions(1) by simp
  moreover have "config_version example_env fresh_config = Inr []"
    using t2 b json_load_empty_object example_versions(1) by (metis dict_get.simps(1))
  moreover have "config_version example_env stamped_config = Inr [1, 2]"
    using t3 c json_load_stamped e example_versions(3) by metis
  moreover have "config_version example_env broken_config = Inl JSONDecodeError"
    using t4 d json_load_brace by blast
  ultimately show ?thesis using a b c d json_load_empty_object json_load_brace by simp
qed


section \<open>Reading and writing files of the tree\<close>

lemma node_get_put_same:
  "node_get n p \<noteq> None \<Longrightarrow> node_get (node_put n p new) p = Some new"
proof (induction n p new rule: node_put.induct)
  case (4 es x y ys new)
  then show ?case by (cases "dict_get es x") auto
qed auto

lemma node_get_put_other:
  "length p = length q \<Longrightarrow> p \<noteq> q \<Longrightarrow> node_get (node_put n p new) q = node_get n q"
proof (induction n p new arbitrary: q rule: node_put.induct)
  case (1 n new)
  then show ?case by simp
next
  case (2 t x xs new)
  then show ?case by simp
next
  case (3 es x new)
  then obtain z where "q = [z]" "z \<noteq> x" by (cases q) auto
  then show ?case by simp
next
  case (4 es x y ys new)
  from "4.prems" obtain z zs where q: "q = z # zs" "length zs = length (y # ys)" by (cases q) auto
  show ?case
  proof (cases "dict_get es x")
    case None
    then show ?thesis by simp
  next
    case (Some c)
    show ?thesis
    proof (cases "z = x")
      case True
      with q "4.prems" have "y # ys \<noteq> zs" by auto
      with "4.IH" [OF Some, of zs] q have "node_get (node_put c (y # ys) new) zs = node_get c zs"
        by simp
      with Some True q show ?thesis by simp
    next
      case False
      with Some q show ?thesis by simp
    qed
  qed
qed

text \<open>Writing below one entry of a directory leaves the other entries as they are.\<close>

lemma node_get_put_apart:
  assumes "x \<noteq> z"
  shows "node_get (node_put n (x # xs) new) (z # zs) = node_get n (z # zs)"
proof (cases n)
  case (File content)
  then show ?thesis by simp
next
  case (Dir es)
  show ?thesis
  proof (cases xs)
    case Nil
    then show ?thesis using Dir assms by simp
  next
    case (Cons y ys)
    then show ?thesis using Dir assms by (cases "dict_get es x") simp_all
  qed
qed

lemma read_write_same:
  "read_file s p = Inr old \<Longrightarrow> read_file (write_file s p new) p = Inr new"
  by (auto simp: read_file_def write_file_def lookup_def node_get_put_same
      split: option.splits node.splits)

lemma lookup_write_other:
  "length p = length q \<Longrightarrow> p \<noteq> q \<Longrightarrow> lookup (write_file s p new) q = lookup s q"
  by (auto simp: write_file_def lookup_def node_get_put_other split: option.splits)

lemma lookup_write_apart:
  "x \<noteq> z \<Longrightarrow> lookup (write_file s (x # xs) new) (z # zs) = lookup s (z # zs)"
  by (auto simp: write_file_def lookup_def node_get_put_apart split: option.splits)

lemma read_write_other:
  "length p = length q \<Longrightarrow> p \<noteq> q \<Longrightarrow> read_file (write_file s p new) q = read_file s q"
  by (simp add: read_file_def lookup_write_other)

lemma legacy_root_write [simp]: "legacy_root (write_file s p new) = legacy_root s"
  by (simp add: write_file_def)

text \<open>
  A preset is processed without an exception when the loop goes on after it; the bytes of
  its file after the loop are the new bytes when the loop writes it.
\<close>

definition completes :: "rewrite \<Rightarrow> bool" where
  "completes r = (case r of Skip \<Rightarrow> True | Replace new \<Rightarrow> True | Raise e \<Rightarrow> False
                  | RaiseWriting e partial \<Rightarrow> False)"

definition rewritten :: "(string \<Rightarrow> rewrite) \<Rightarrow> string \<Rightarrow> string" where
  "rewritten f content = (case f content of Replace new \<Rightarrow> new | _ \<Rightarrow> content)"

lemma completes_simps [simp]:
  "completes Skip" "completes (Replace new)" "\<not> completes (Raise e)"
  "\<not> completes (RaiseWriting e partial)"
  by (simp_all add: completes_def)

lemma rewrite_presets_done:
  assumes "distinct presets" "\<forall>p \<in> set presets. length p = n"
    and "\<forall>p \<in> set presets. \<exists>content. read_file s p = Inr content \<and> completes (f content)"
  shows "\<exists>s'. rewrite_presets f presets s = Done s' \<and> legacy_root s' = legacy_root s \<and>
          (\<forall>p \<in> set presets. \<forall>content. read_file s p = Inr content \<longrightarrow>
              read_file s' p = Inr (rewritten f content)) \<and>
          (\<forall>q. length q = n \<and> q \<notin> set presets \<longrightarrow> lookup s' q = lookup s q)"
  using assms
proof (induction presets arbitrary: s)
  case Nil
  then show ?case by simp
next
  case (Cons p presets)
  from Cons.prems obtain content where c: "read_file s p = Inr content" "completes (f content)"
    by auto
  define s1 where "s1 = (case f content of Replace new \<Rightarrow> write_file s p new | _ \<Rightarrow> s)"
  have step: "rewrite_presets f (p # presets) s = rewrite_presets f presets s1"
    using c by (cases "f content") (simp_all add: s1_def)
  have len: "length p = n" "\<forall>q \<in> set presets. length q = n" "p \<notin> set presets" "distinct presets"
    using Cons.prems by auto
  have other: "lookup s1 q = lookup s q" if "length q = n" "q \<noteq> p" for q
    using that len(1) by (auto simp: s1_def lookup_write_other split: rewrite.splits)
  have same: "read_file s1 p = Inr (rewritten f content)"
    using c by (auto simp: s1_def rewritten_def read_write_same split: rewrite.splits)
  have leg: "legacy_root s1 = legacy_root s" by (simp add: s1_def split: rewrite.splits)
  have "\<forall>q \<in> set presets. \<exists>content. read_file s1 q = Inr content \<and> completes (f content)"
  proof
    fix q assume q: "q \<in> set presets"
    with len have "lookup s1 q = lookup s q" by (intro other) auto
    then have "read_file s1 q = read_file s q" by (simp add: read_file_def)
    with Cons.prems(3) q show "\<exists>content. read_file s1 q = Inr content \<and> completes (f content)" by simp
  qed
  from Cons.IH [OF len(4) len(2) this]
  obtain s' where s': "rewrite_presets f presets s1 = Done s'" "legacy_root s' = legacy_root s1"
    "\<forall>q \<in> set presets. \<forall>content. read_file s1 q = Inr content \<longrightarrow>
              read_file s' q = Inr (rewritten f content)"
    "\<forall>q. length q = n \<and> q \<notin> set presets \<longrightarrow> lookup s' q = lookup s1 q" by blast
  have "read_file s' q = Inr (rewritten f content')"
    if "q \<in> set (p # presets)" "read_file s q = Inr content'" for q content'
  proof (cases "q = p")
    case True
    from s'(4) len have "lookup s' p = lookup s1 p" by blast
    then have "read_file s' p = read_file s1 p" by (simp add: read_file_def)
    with same True that c show ?thesis by simp
  next
    case False
    with that have q: "q \<in> set presets" by simp
    with len False have "lookup s1 q = lookup s q" by (intro other) auto
    then have "read_file s1 q = read_file s q" by (simp add: read_file_def)
    with s'(3) q that show ?thesis by simp
  qed
  moreover have "lookup s' q = lookup s q" if "length q = n \<and> q \<notin> set (p # presets)" for q
    using s'(4) other [of q] that by auto
  ultimately show ?case using step s'(1,2) leg by auto
qed

lemma all_presets_length:
  assumes "all_presets s = Inr presets"
  shows "\<forall>p \<in> set presets. length p = 3"
  using assms
  by (auto simp: all_presets_def get_preset_path_def split: option.splits node.splits)

lemma rewrite_presets_append:
  "rewrite_presets f (before @ after) s =
     (case rewrite_presets f before s of
        Raised e s' \<Rightarrow> Raised e s'
      | Done s' \<Rightarrow> rewrite_presets f after s')"
  by (induction before arbitrary: s) (auto split: sum.splits rewrite.splits)

text \<open>
  The loop up to a preset at which an exception is raised, before its file is opened for
  writing or while it is written.
\<close>

lemma rewrite_presets_stops:
  assumes "distinct (before @ p # after)" "\<forall>q \<in> set (before @ p # after). length q = n"
    and "\<forall>q \<in> set before. \<exists>content. read_file s q = Inr content \<and> completes (f content)"
    and "read_file s p = Inr content"
  shows "\<exists>s'. rewrite_presets f before s = Done s' \<and> read_file s' p = Inr content \<and>
           (\<forall>q \<in> set after. read_file s' q = read_file s q) \<and>
           rewrite_presets f (before @ p # after) s = rewrite_presets f (p # after) s'"
proof -
  have "distinct before" "\<forall>q \<in> set before. length q = n" using assms(1,2) by auto
  from rewrite_presets_done [OF this assms(3)]
  obtain s' where s': "rewrite_presets f before s = Done s'"
    "\<forall>q. length q = n \<and> q \<notin> set before \<longrightarrow> lookup s' q = lookup s q" by blast
  have same: "read_file s' q = read_file s q" if "q \<in> set (p # after)" for q
  proof -
    have "length q = n \<and> q \<notin> set before" using that assms(1,2) by auto
    with s'(2) show ?thesis by (simp add: read_file_def)
  qed
  have "rewrite_presets f (before @ p # after) s = rewrite_presets f (p # after) s'"
    using s'(1) by (simp add: rewrite_presets_append)
  moreover have "read_file s' p = Inr content" using same [of p] assms(4) by simp
  ultimately show ?thesis using same s'(1) by auto
qed

lemma rewrite_presets_raises:
  assumes "distinct (before @ p # after)" "\<forall>q \<in> set (before @ p # after). length q = n"
    and "\<forall>q \<in> set before. \<exists>content. read_file s q = Inr content \<and> completes (f content)"
    and "read_file s p = Inr content" "f content = Raise e"
  shows "\<exists>s'. rewrite_presets f (before @ p # after) s = Raised e s' \<and>
           read_file s' p = Inr content \<and> (\<forall>q \<in> set after. read_file s' q = read_file s q)"
proof -
  from rewrite_presets_stops [OF assms(1-4)]
  obtain s' where s': "read_file s' p = Inr content"
    "\<forall>q \<in> set after. read_file s' q = read_file s q"
    "rewrite_presets f (before @ p # after) s = rewrite_presets f (p # after) s'" by blast
  have "rewrite_presets f (p # after) s' = Raised e s'"
    using s'(1) assms(5) by simp
  with s' show ?thesis by auto
qed


section \<open>A preset that does not parse\<close>

lemma load_preset_cases:
  "json_load env content = Inl JSONDecodeError \<Longrightarrow> load_preset env content body = Skip"
  "json_load env content = Inl e \<Longrightarrow> e \<noteq> JSONDecodeError \<Longrightarrow> load_preset env content body = Raise e"
  "json_load env content = Inr v \<Longrightarrow> load_preset env content body = body v"
  by (simp_all add: load_preset_def)

lemma mapping_keys_text_skips:
  "json_load env content = Inl JSONDecodeError \<Longrightarrow> mapping_keys_text env content = Skip"
  by (simp add: mapping_keys_text_def load_preset_cases)

lemma add_target_text_skips:
  "json_load env content = Inl JSONDecodeError \<Longrightarrow> add_target_text env content = Skip"
  by (simp add: add_target_text_def load_preset_cases)

lemma dump_preset_completes:
  "completes (dump_preset env v) \<Longrightarrow>
     \<exists>text. json_dump env v = Inr text \<and> dump_preset env v = Replace (text @ [nl])"
  by (cases "json_dump env v") (auto simp: dump_preset_def)

lemma mapping_keys_text_plain:
  assumes "completes (mapping_keys_text env content)" "json_load env content = Inr (JObj d)"
    and "dict_get d ''mapping'' = None"
  shows "\<exists>text. json_dump env (JObj d) = Inr text \<and>
           mapping_keys_text env content = Replace (text @ [nl])"
proof -
  have "mapping_keys_text env content = dump_preset env (JObj d)"
    using assms(2,3) by (simp add: mapping_keys_text_def load_preset_cases mapping_keys_dict_def)
  with assms(1) dump_preset_completes [of env "JObj d"] show ?thesis by simp
qed

lemma mapping_keys_text_mapping:
  assumes "completes (mapping_keys_text env content)" "json_load env content = Inr (JObj d)"
    and "dict_get d ''mapping'' = Some (JObj m)"
  shows "\<exists>m' text. normalize_mapping m = Inr m' \<and>
           json_dump env (JObj (dict_set ''mapping'' (JObj m') d)) = Inr text \<and>
           mapping_keys_text env content = Replace (text @ [nl])"
proof (cases "normalize_mapping m")
  case (Inl e)
  then have "mapping_keys_text env content = Raise e"
    using assms(2,3) by (simp add: mapping_keys_text_def load_preset_cases mapping_keys_dict_def)
  with assms(1) show ?thesis by simp
next
  case (Inr m')
  then have "mapping_keys_text env content = dump_preset env (JObj (dict_set ''mapping'' (JObj m') d))"
    using assms(2,3) by (simp add: mapping_keys_text_def load_preset_cases mapping_keys_dict_def)
  with assms(1) dump_preset_completes [of env "JObj (dict_set ''mapping'' (JObj m') d)"] Inr
  show ?thesis by simp
qed

lemma add_target_text_plain:
  assumes "json_load env content = Inr (JObj d)" "dict_get d ''mapping'' = None"
  shows "add_target_text env content = Skip"
  using assms by (simp add: add_target_text_def load_preset_cases)

lemma add_target_text_mapping:
  assumes "completes (add_target_text env content)" "json_load env content = Inr (JObj d)"
    and "dict_get d ''mapping'' = Some (JObj m)"
  shows "\<exists>m' text. add_target_loop env m m = Inr m' \<and>
           json_dump env (JObj (dict_set ''mapping'' (JObj m') d)) = Inr text \<and>
           add_target_text env content = Replace (text @ [nl])"
proof (cases "add_target_loop env m m")
  case (Inl e)
  then have "add_target_text env content = Raise e"
    using assms(2,3) by (simp add: add_target_text_def load_preset_cases)
  with assms(1) show ?thesis by simp
next
  case (Inr m')
  then have "add_target_text env content = dump_preset env (JObj (dict_set ''mapping'' (JObj m') d))"
    using assms(2,3) by (simp add: add_target_text_def load_preset_cases)
  with assms(1) dump_preset_completes [of env "JObj (dict_set ''mapping'' (JObj m') d)"] Inr
  show ?thesis by simp
qed

lemma mapping_keys_skips:
  assumes "path_exists s get_preset_path" "all_presets s = Inr presets" "distinct presets"
    and "\<forall>p \<in> set presets. \<exists>content. read_file s p = Inr content \<and>
           (json_load env content \<noteq> Inl JSONDecodeError \<longrightarrow>
              completes (mapping_keys_text env content))"
  shows "\<exists>s'. mapping_keys env s = Done s' \<and>
           (\<forall>p \<in> set presets. \<forall>content. read_file s p = Inr content \<longrightarrow>
              (json_load env content = Inl JSONDecodeError \<longrightarrow> read_file s' p = Inr content) \<and>
              (\<forall>d. json_load env content = Inr (JObj d) \<longrightarrow>
                 (dict_get d ''mapping'' = None \<longrightarrow>
                    (\<exists>text. json_dump env (JObj d) = Inr text \<and>
                       read_file s' p = Inr (text @ [nl]))) \<and>
                 (\<forall>m. dict_get d ''mapping'' = Some (JObj m) \<longrightarrow>
                    (\<exists>m' text. normalize_mapping m = Inr m' \<and>
                       json_dump env (JObj (dict_set ''mapping'' (JObj m') d)) = Inr text \<and>
                       read_file s' p = Inr (text @ [nl])))))"
proof -
  have ok: "completes (mapping_keys_text env content)"
    if "p \<in> set presets" "read_file s p = Inr content" for p content
    using assms(4) that mapping_keys_text_skips [of env content] by fastforce
  have "\<forall>p \<in> set presets. \<exists>content. read_file s p = Inr content \<and>
          completes (mapping_keys_text env content)"
    using assms(4) ok by blast
  from rewrite_presets_done [OF assms(3) all_presets_length [OF assms(2)] this]
  obtain s' where s': "rewrite_presets (mapping_keys_text env) presets s = Done s'"
    "\<forall>p \<in> set presets. \<forall>content. read_file s p = Inr content \<longrightarrow>
              read_file s' p = Inr (rewritten (mapping_keys_text env) content)" by blast
  have run: "mapping_keys env s = Done s'" using assms(1,2) s'(1) by (simp add: mapping_keys_def)
  have "(json_load env content = Inl JSONDecodeError \<longrightarrow> read_file s' p = Inr content) \<and>
        (\<forall>d. json_load env content = Inr (JObj d) \<longrightarrow>
           (dict_get d ''mapping'' = None \<longrightarrow>
              (\<exists>text. json_dump env (JObj d) = Inr text \<and>
                 read_file s' p = Inr (text @ [nl]))) \<and>
           (\<forall>m. dict_get d ''mapping'' = Some (JObj m) \<longrightarrow>
              (\<exists>m' text. normalize_mapping m = Inr m' \<and>
                 json_dump env (JObj (dict_set ''mapping'' (JObj m') d)) = Inr text \<and>
                 read_file s' p = Inr (text @ [nl]))))"
    if "p \<in> set presets" "read_file s p = Inr content" for p content
  proof -
    from s'(2) that have r: "read_file s' p = Inr (rewritten (mapping_keys_text env) content)"
      by blast
    note c = ok [OF that]
    have a: "read_file s' p = Inr content" if "json_load env content = Inl JSONDecodeError"
      using r mapping_keys_text_skips [OF that] by (simp add: rewritten_def)
    have b: "\<exists>text. json_dump env (JObj d) = Inr text \<and> read_file s' p = Inr (text @ [nl])"
      if "json_load env content = Inr (JObj d)" "dict_get d ''mapping'' = None" for d
      using r mapping_keys_text_plain [OF c that] by (auto simp: rewritten_def)
    have d: "\<exists>m' text. normalize_mapping m = Inr m' \<and>
                 json_dump env (JObj (dict_set ''mapping'' (JObj m') d)) = Inr text \<and>
                 read_file s' p = Inr (text @ [nl])"
      if "json_load env content = Inr (JObj d)" "dict_get d ''mapping'' = Some (JObj m)" for d m
      using r mapping_keys_text_mapping [OF c that] by (auto simp: rewritten_def)
    from a b d show ?thesis by blast
  qed
  with run show ?thesis by blast
qed

lemma add_target_skips:
  assumes "path_exists s get_preset_path" "all_presets s = Inr presets" "distinct presets"
    and "\<forall>p \<in> set presets. \<exists>content. read_file s p = Inr content \<and>
           (json_load env content \<noteq> Inl JSONDecodeError \<longrightarrow>
              completes (add_target_text env content))"
  shows "\<exists>s'. add_target env s = Done s' \<and>
           (\<forall>p \<in> set presets. \<forall>content. read_file s p = Inr content \<longrightarrow>
              (json_load env content = Inl JSONDecodeError \<longrightarrow> read_file s' p = Inr content) \<and>
              (\<forall>d. json_load env content = Inr (JObj d) \<longrightarrow>
                 (dict_get d ''mapping'' = None \<longrightarrow> read_file s' p = Inr content) \<and>
                 (\<forall>m. dict_get d ''mapping'' = Some (JObj m) \<longrightarrow>
                    (\<exists>m' text. add_target_loop env m m = Inr m' \<and>
                       json_dump env (JObj (dict_set ''mapping'' (JObj m') d)) = Inr text \<and>
                       read_file s' p = Inr (text @ [nl])))))"
proof -
  have ok: "completes (add_target_text env content)"
    if "p \<in> set presets" "read_file s p = Inr content" for p content
    using assms(4) that add_target_text_skips [of env content] by fastforce
  have "\<forall>p \<in> set presets. \<exists>content. read_file s p = Inr content \<and>
          completes (add_target_text env content)"
    using assms(4) ok by blast
  from rewrite_presets_done [OF assms(3) all_presets_length [OF assms(2)] this]
  obtain s' where s': "rewrite_presets (add_target_text env) presets s = Done s'"
    "\<forall>p \<in> set presets. \<forall>content. read_file s p = Inr content \<longrightarrow>
              read_file s' p = Inr (rewritten (add_target_text env) content)" by blast
  have run: "add_target env s = Done s'" using assms(1,2) s'(1) by (simp add: add_target_def)
  have "(json_load env content = Inl JSONDecodeError \<longrightarrow> read_file s' p = Inr content) \<and>
        (\<forall>d. json_load env content = Inr (JObj d) \<longrightarrow>
           (dict_get d ''mapping'' = None \<longrightarrow> read_file s' p = Inr content) \<and>
           (\<forall>m. dict_get d ''mapping'' = Some (JObj m) \<longrightarrow>
              (\<exists>m' text. add_target_loop env m m = Inr m' \<and>
                 json_dump env (JObj (dict_set ''mapping'' (JObj m') d)) = Inr text \<and>
                 read_file s' p = Inr (text @ [nl]))))"
    if "p \<in> set presets" "read_file s p = Inr content" for p content
  proof -
    from s'(2) that have r: "read_file s' p = Inr (rewritten (add_target_text env) content)"
      by blast
    note c = ok [OF that]
    have a: "read_file s' p = Inr content" if "json_load env content = Inl JSONDecodeError"
      using r add_target_text_skips [OF that] by (simp add: rewritten_def)
    have b: "read_file s' p = Inr content"
      if "json_load env content = Inr (JObj d)" "dict_get d ''mapping'' = None" for d
      using r add_target_text_plain [OF that] by (simp add: rewritten_def)
    have d: "\<exists>m' text. add_target_loop env m m = Inr m' \<and>
                 json_dump env (JObj (dict_set ''mapping'' (JObj m') d)) = Inr text \<and>
                 read_file s' p = Inr (text @ [nl])"
      if "json_load env content = Inr (JObj d)" "dict_get d ''mapping'' = Some (JObj m)" for d m
      using r add_target_text_mapping [OF c that] by (auto simp: rewritten_def)
    from a b d show ?thesis by blast
  qed
  with run show ?thesis by blast
qed

definition legacy_preset :: string where
  "legacy_preset = json_dumps (JObj [(''mapping'', JObj [(''1,5'', JStr ''a'')])])"

definition binary_tree :: fs where
  "binary_tree =
     \<lparr>config_root = Some (Dir
        [(''config.json'', File ''{}''),
         (''presets'', Dir [(''g'', Dir [(''bad.json'', File [CHR 0xFF]),
                                          (''good.json'', File legacy_preset)])])]),
      legacy_root = None\<rparr>"

text \<open>
  Claim C6, as stated, fails. In \<open>binary_tree\<close> the first preset holds the byte
  \<open>0xFF\<close>, which is not text in a UTF-8 locale: \<open>json.load\<close> raises
  \<open>UnicodeDecodeError\<close>, the handler of the loop catches \<open>JSONDecodeError\<close> only, and
  the exception ends each of the two steps and the whole run with the tree as it was. The
  second preset is not processed.
\<close>

theorem undecodable_preset_aborts:
  "mapping_keys example_env binary_tree = Raised UnicodeDecodeError binary_tree \<and>
   add_target example_env binary_tree = Raised UnicodeDecodeError binary_tree \<and>
   migrate example_env binary_tree = Raised UnicodeDecodeError binary_tree"
  by code_simp

text \<open>
  Claim C6, amended. Let the presets directory exist and list every preset once, let
  every preset be a file that can be opened, and let no preset other than those on which
  \<open>json.load\<close> raises \<open>JSONDecodeError\<close> make the step raise. Then the mapping-key
  step and the target-annotation step both complete, and
  \<^item> a preset on which \<open>json.load\<close> raises \<open>JSONDecodeError\<close> keeps its bytes;
  \<^item> the mapping-key step writes every preset that holds a dict: as it was loaded when
    it has no mapping, and with the keys of its mapping normalized otherwise, each time
    followed by a line break;
  \<^item> the target-annotation step leaves a preset without a mapping as it is and writes
    every preset with a mapping, with the targets added and followed by a line break.
\<close>

theorem corrupt_preset_is_skipped:
  assumes "path_exists s get_preset_path" "all_presets s = Inr presets" "distinct presets"
  shows "((\<forall>p \<in> set presets. \<exists>content. read_file s p = Inr content \<and>
             (json_load env content \<noteq> Inl JSONDecodeError \<longrightarrow>
                completes (mapping_keys_text env content))) \<longrightarrow>
          (\<exists>s'. mapping_keys env s = Done s' \<and>
             (\<forall>p \<in> set presets. \<forall>content. read_file s p = Inr content \<longrightarrow>
                (json_load env content = Inl JSONDecodeError \<longrightarrow> read_file s' p = Inr content) \<and>
                (\<forall>d. json_load env content = Inr (JObj d) \<longrightarrow>
                   (dict_get d ''mapping'' = None \<longrightarrow>
                      (\<exists>text. json_dump env (JObj d) = Inr text \<and>
                         read_file s' p = Inr (text @ [nl]))) \<and>
                   (\<forall>m. dict_get d ''mapping'' = Some (JObj m) \<longrightarrow>
                      (\<exists>m' text. normalize_mapping m = Inr m' \<and>
                         json_dump env (JObj (dict_set ''mapping'' (JObj m') d)) = Inr text \<and>
                         read_file s' p = Inr (text @ [nl]))))))) \<and>
         ((\<forall>p \<in> set presets. \<exists>content. read_file s p = Inr content \<and>
             (json_load env content \<noteq> Inl JSONDecodeError \<longrightarrow>
                completes (add_target_text env content))) \<longrightarrow>
          (\<exists>s'. add_target env s = Done s' \<and>
             (\<forall>p \<in> set presets. \<forall>content. read_file s p = Inr content \<longrightarrow>
                (json_load env content = Inl JSONDecodeError \<longrightarrow> read_file s' p = Inr content) \<and>
                (\<forall>d. json_load env content = Inr (JObj d) \<longrightarrow>
                   (dict_get d ''mapping'' = None \<longrightarrow> read_file s' p = Inr content) \<and>
                   (\<forall>m. dict_get d ''mapping'' = Some (JObj m) \<longrightarrow>
                      (\<exists>m' text. add_target_loop env m m = Inr m' \<and>
                         json_dump env (JObj (dict_set ''mapping'' (JObj m') d)) = Inr text \<and>
                         read_file s' p = Inr (text @ [nl])))))))"
  using mapping_keys_skips [OF assms] add_target_skips [OF assms] by blast

definition corrupt_tree :: fs where
  "corrupt_tree =
     \<lparr>config_root = Some (Dir
        [(''config.json'', File ''{}''),
         (''presets'', Dir [(''g'', Dir [(''good.json'', File legacy_preset),
                                          (''bad.json'', File ''{'')])])]),
      legacy_root = None\<rparr>"

lemma corrupt_tree_presets:
  "path_exists corrupt_tree get_preset_path"
  "all_presets corrupt_tree = Inr [[''presets'', ''g'', ''good.json''], [''presets'', ''g'', ''bad.json'']]"
  "read_file corrupt_tree [''presets'', ''g'', ''good.json''] = Inr legacy_preset"
  "read_file corrupt_tree [''presets'', ''g'', ''bad.json''] = Inr ''{''"
  by (simp_all add: corrupt_tree_def path_exists_def all_presets_def get_preset_path_def
      lookup_def read_file_def path_suffix_def)

lemma legacy_preset_loads:
  "json_load example_env legacy_preset = Inr (JObj [(''mapping'', JObj [(''1,5'', JStr ''a'')])])"
  unfolding legacy_preset_def by code_simp

lemma legacy_preset_keys:
  "mapping_keys_text example_env legacy_preset =
     Replace (json_dumps (JObj [(''mapping'', JObj [(''1,5,1'', JStr ''a'')])]) @ [nl])"
  unfolding legacy_preset_def by code_simp

lemma legacy_preset_target:
  "add_target_text example_env legacy_preset =
     Replace (json_dumps (JObj [(''mapping'', JObj [(''1,5'', JArr [JStr ''a'', JStr ''keyboard''])])])
          @ [nl])"
  unfolding legacy_preset_def by code_simp

lemma legacy_preset_dumps:
  "json_dump example_env (JObj (dict_set ''mapping'' (JObj [(''1,5,1'', JStr ''a'')])
       [(''mapping'', JObj [(''1,5'', JStr ''a'')])])) =
     Inr (json_dumps (JObj [(''mapping'', JObj [(''1,5,1'', JStr ''a'')])]))"
  "json_dump example_env (JObj (dict_set ''mapping'' (JObj [(''1,5'', JArr [JStr ''a'', JStr ''keyboard''])])
       [(''mapping'', JObj [(''1,5'', JStr ''a'')])])) =
     Inr (json_dumps (JObj [(''mapping'', JObj [(''1,5'', JArr [JStr ''a'', JStr ''keyboard''])])]))"
  by code_simp+

theorem corrupt_preset_is_skipped_witness:
  "path_exists corrupt_tree get_preset_path \<and>
   all_presets corrupt_tree = Inr [[''presets'', ''g'', ''good.json''], [''presets'', ''g'', ''bad.json'']] \<and>
   distinct [[''presets'', ''g'', ''good.json''], [''presets'', ''g'', ''bad.json'']] \<and>
   read_file corrupt_tree [''presets'', ''g'', ''bad.json''] = Inr ''{'' \<and>
   json_load example_env ''{'' = Inl JSONDecodeError \<and>
   read_file corrupt_tree [''presets'', ''g'', ''good.json''] = Inr legacy_preset \<and>
   (\<exists>s'. mapping_keys example_env corrupt_tree = Done s' \<and>
      read_file s' [''presets'', ''g'', ''bad.json''] = Inr ''{'' \<and>
      read_file s' [''presets'', ''g'', ''good.json''] =
        Inr (json_dumps (JObj [(''mapping'', JObj [(''1,5,1'', JStr ''a'')])]) @ [nl])) \<and>
   (\<exists>s'. add_target example_env corrupt_tree = Done s' \<and>
      read_file s' [''presets'', ''g'', ''bad.json''] = Inr ''{'' \<and>
      read_file s' [''presets'', ''g'', ''good.json''] =
        Inr (json_dumps (JObj [(''mapping'', JObj [(''1,5'', JArr [JStr ''a'', JStr ''keyboard''])])])
             @ [nl]))"
proof -
  let ?good = "[''presets'', ''g'', ''good.json'']" and ?bad = "[''presets'', ''g'', ''bad.json'']"
  let ?d = "[(''mapping'', JObj [(''1,5'', JStr ''a'')])]"
  have d: "distinct [?good, ?bad]" by simp
  note inst = corrupt_preset_is_skipped [OF corrupt_tree_presets(1,2) d, of example_env]
  have h1: "\<forall>p \<in> set [?good, ?bad]. \<exists>content. read_file corrupt_tree p = Inr content \<and>
             (json_load example_env content \<noteq> Inl JSONDecodeError \<longrightarrow>
                completes (mapping_keys_text example_env content))"
    using corrupt_tree_presets(3,4) legacy_preset_keys json_load_brace by simp
  have h2: "\<forall>p \<in> set [?good, ?bad]. \<exists>content. read_file corrupt_tree p = Inr content \<and>
             (json_load example_env content \<noteq> Inl JSONDecodeError \<longrightarrow>
                completes (add_target_text example_env content))"
    using corrupt_tree_presets(3,4) legacy_preset_target json_load_brace by simp
  from inst h1 obtain s1 where s1: "mapping_keys example_env corrupt_tree = Done s1"
    "\<forall>p \<in> set [?good, ?bad]. \<forall>content. read_file corrupt_tree p = Inr content \<longrightarrow>
        (json_load example_env content = Inl JSONDecodeError \<longrightarrow> read_file s1 p = Inr content) \<and>
        (\<forall>d. json_load example_env content = Inr (JObj d) \<longrightarrow>
           (dict_get d ''mapping'' = None \<longrightarrow>
              (\<exists>text. json_dump example_env (JObj d) = Inr text \<and>
                 read_file s1 p = Inr (text @ [nl]))) \<and>
           (\<forall>m. dict_get d ''mapping'' = Some (JObj m) \<longrightarrow>
              (\<exists>m' text. normalize_mapping m = Inr m' \<and>
                 json_dump example_env (JObj (dict_set ''mapping'' (JObj m') d)) = Inr text \<and>
                 read_file s1 p = Inr (text @ [nl]))))"
    by blast
  from inst h2 obtain s2 where s2: "add_target example_env corrupt_tree = Done s2"
    "\<forall>p \<in> set [?good, ?bad]. \<forall>content. read_file corrupt_tree p = Inr content \<longrightarrow>
        (json_load example_env content = Inl JSONDecodeError \<longrightarrow> read_file s2 p = Inr content) \<and>
        (\<forall>d. json_load example_env content = Inr (JObj d) \<longrightarrow>
           (dict_get d ''mapping'' = None \<longrightarrow> read_file s2 p = Inr content) \<and>
           (\<forall>m. dict_get d ''mapping'' = Some (JObj m) \<longrightarrow>
              (\<exists>m' text. add_target_loop example_env m m = Inr m' \<and>
                 json_dump example_env (JObj (dict_set ''mapping'' (JObj m') d)) = Inr text \<and>
                 read_file s2 p = Inr (text @ [nl]))))"
    by blast
  have g: "dict_get ?d ''mapping'' = Some (JObj [(''1,5'', JStr ''a'')])" by simp
  have n: "normalize_mapping [(''1,5'', JStr ''a'')] = Inr [(''1,5,1'', JStr ''a'')]"
    by (simp add: normalize_mapping_def dict_keys_def)
  have l: "add_target_loop example_env [(''1,5'', JStr ''a'')] [(''1,5'', JStr ''a'')]
             = Inr [(''1,5'', JArr [JStr ''a'', JStr ''keyboard''])]"
    by code_simp
  have a1: "read_file s1 ?bad = Inr ''{''"
    using s1(2) corrupt_tree_presets(4) json_load_brace by simp
  have a2: "read_file s1 ?good = Inr (json_dumps (JObj [(''mapping'', JObj [(''1,5,1'', JStr ''a'')])]) @ [nl])"
  proof -
    from s1(2) corrupt_tree_presets(3) legacy_preset_loads g
    obtain m' out where "normalize_mapping [(''1,5'', JStr ''a'')] = Inr m'"
      "json_dump example_env (JObj (dict_set ''mapping'' (JObj m') ?d)) = Inr out"
      "read_file s1 ?good = Inr (out @ [nl])" by fastforce
    with n legacy_preset_dumps(1) show ?thesis by simp
  qed
  have b1: "read_file s2 ?bad = Inr ''{''"
    using s2(2) corrupt_tree_presets(4) json_load_brace by simp
  have b2: "read_file s2 ?good =
        Inr (json_dumps (JObj [(''mapping'', JObj [(''1,5'', JArr [JStr ''a'', JStr ''keyboard''])])])
             @ [nl])"
  proof -
    from s2(2) corrupt_tree_presets(3) legacy_preset_loads g
    obtain m' out where "add_target_loop example_env [(''1,5'', JStr ''a'')] [(''1,5'', JStr ''a'')] = Inr m'"
      "json_dump example_env (JObj (dict_set ''mapping'' (JObj m') ?d)) = Inr out"
      "read_file s2 ?good = Inr (out @ [nl])" by fastforce
    with l legacy_preset_dumps(2) show ?thesis by simp
  qed
  from s1(1) s2(1) a1 a2 b1 b2 corrupt_tree_presets json_load_brace d
  show ?thesis by blast
qed


section \<open>A symbol that cannot be resolved\<close>

lemma add_target_loop_raises:
  assumes "(key, symbol) \<in> set items" "\<not> is_list symbol" "find_target env symbol = Inl e"
  shows "\<exists>e'. add_target_loop env items mapping = Inl e'"
  using assms
proof (induction items arbitrary: mapping)
  case Nil
  then show ?case by simp
next
  case (Cons item items)
  obtain k v where item: "item = (k, v)" by (cases item)
  show ?case
  proof (cases "item = (key, symbol)")
    case True
    with Cons.prems item show ?thesis by simp
  next
    case False
    with Cons.prems have "(key, symbol) \<in> set items" by simp
    from Cons.IH [OF this Cons.prems(2,3)]
    have "\<exists>e'. add_target_loop env items m = Inl e'" for m .
    then show ?thesis using item by (auto split: sum.splits)
  qed
qed

definition failing_preset :: string where
  "failing_preset =
     json_dumps (JObj [(''mapping'', JObj [(''1,5,1'', JStr ''a''), (''1,6,1'', JStr ''k(a))'')])]) @ [nl]"

definition later_preset :: string where
  "later_preset = json_dumps (JObj [(''mapping'', JObj [(''1,7,1'', JStr ''a'')])]) @ [nl]"

definition failing_tree :: fs where
  "failing_tree =
     \<lparr>config_root = Some (Dir
        [(''config.json'', File ''{}''),
         (''presets'', Dir [(''g'', Dir [(''first.json'', File failing_preset),
                                          (''second.json'', File later_preset)])])]),
      legacy_root = None\<rparr>"

text \<open>
  Claim C5, as stated, fails: \<open>_add_target\<close> has no handler around \<open>_find_target\<close>. In
  \<open>failing_tree\<close> the first preset holds a macro on which the parser raises. The run ends
  with that exception and the tree as it was: the other entry of the preset and the
  second preset are not annotated, and the version is not stamped.
\<close>

theorem unresolved_symbol_aborts_run:
  "migrate example_env failing_tree = Raised CollaboratorError failing_tree"
  by code_simp

lemma add_target_text_raises:
  assumes "json_load env content = Inr (JObj preset_dict)"
    and "dict_get preset_dict ''mapping'' = Some (JObj mapping)"
    and "(key, JStr symbol) \<in> set mapping" "find_target env (JStr symbol) = Inl e"
  shows "\<exists>e'. add_target_text env content = Raise e'"
proof -
  from add_target_loop_raises [OF assms(3) _ assms(4)]
  obtain e' where "add_target_loop env mapping mapping = Inl e'" by auto
  with assms(1,2) show ?thesis by (simp add: add_target_text_def load_preset_def)
qed

lemma unknown_name_not_a_failure:
  assumes "\<not> is_this_a_macro env (JStr name)" "system_mapping_get env (JStr name) = Inr None"
    and "\<forall>(n, u) \<in> set (devices env). None \<notin> EV_KEY u"
  shows "find_target env (JStr name) = Inr None"
proof -
  have "required_capabilities env (JStr name) = Inr \<lparr>EV_KEY = {None}, EV_REL = {}\<rparr>"
    using assms(1,2) by (simp add: required_capabilities_def)
  moreover have "first_capable {None} (devices env) = None"
    using assms(3) by (intro first_capable_none) auto
  ultimately show ?thesis by (simp add: find_target_def)
qed

text \<open>
  Claim C5, amended. A failure raised while the symbol of one entry is resolved is not
  caught: when the presets before it are processed without an exception, \<open>_add_target\<close>
  raises, the preset that holds the entry keeps its bytes, the presets after it are not
  touched, and no later step of the run is executed. A name for which the lookup returns
  \<open>None\<close> is not a failure: no target is found for it, and the value stored for the
  entry is the name with the remark appended, paired with the \<open>keyboard\<close> target.
\<close>

theorem unresolved_symbol_propagates:
  assumes "path_exists s get_preset_path"
    and "all_presets s = Inr (before @ p # after)" "distinct (before @ p # after)"
    and "\<forall>q \<in> set before. \<exists>content. read_file s q = Inr content \<and>
           completes (add_target_text env content)"
    and "read_file s p = Inr content" "json_load env content = Inr (JObj preset_dict)"
    and "dict_get preset_dict ''mapping'' = Some (JObj mapping)"
    and "(key, JStr symbol) \<in> set mapping" "find_target env (JStr symbol) = Inl e"
  shows "(\<exists>e' s'. add_target env s = Raised e' s' \<and>
            (\<forall>steps. run_steps (add_target env # steps) s = Raised e' s') \<and>
            read_file s' p = Inr content \<and>
            (\<forall>q \<in> set after. read_file s' q = read_file s q)) \<and>
         (\<forall>name. \<not> is_this_a_macro env (JStr name) \<and> system_mapping_get env (JStr name) = Inr None \<and>
            (\<forall>(n, u) \<in> set (devices env). None \<notin> EV_KEY u) \<longrightarrow>
            find_target env (JStr name) = Inr None \<and>
            with_target env (JStr name) None =
              Inr (JArr [JStr (name @ broken_mapping), JStr ''keyboard'']))"
proof -
  from add_target_text_raises [OF assms(6,7,8,9)]
  obtain e' where e': "add_target_text env content = Raise e'" by blast
  from rewrite_presets_raises [OF assms(3) all_presets_length [OF assms(2)] assms(4,5) e']
  obtain s' where s': "rewrite_presets (add_target_text env) (before @ p # after) s = Raised e' s'"
    "read_file s' p = Inr content" "\<forall>q \<in> set after. read_file s' q = read_file s q" by blast
  have "add_target env s = Raised e' s'" using assms(1,2) s'(1) by (simp add: add_target_def)
  moreover from this have "run_steps (add_target env # steps) s = Raised e' s'" for steps by simp
  moreover have "with_target env (JStr name) None =
      Inr (JArr [JStr (name @ broken_mapping), JStr ''keyboard''])" for name
    by (simp add: with_target_str)
  ultimately show ?thesis using s'(2,3) unknown_name_not_a_failure by blast
qed

lemma failing_tree_presets:
  "path_exists failing_tree get_preset_path"
  "all_presets failing_tree = Inr ([] @ [''presets'', ''g'', ''first.json''] # [[''presets'', ''g'', ''second.json'']])"
  "read_file failing_tree [''presets'', ''g'', ''first.json''] = Inr failing_preset"
  "read_file failing_tree [''presets'', ''g'', ''second.json''] = Inr later_preset"
  by (simp_all add: failing_tree_def path_exists_def all_presets_def get_preset_path_def
      lookup_def read_file_def path_suffix_def)

lemma failing_preset_loads:
  "json_load example_env failing_preset =
     Inr (JObj [(''mapping'', JObj [(''1,5,1'', JStr ''a''), (''1,6,1'', JStr ''k(a))'')])])"
  unfolding failing_preset_def by code_simp

lemma find_target_bad: "find_target example_env (JStr ''k(a))'') = Inl CollaboratorError"
  by (simp add: find_target_def required_capabilities_def example_env_def)

theorem unresolved_symbol_propagates_witness:
  "path_exists failing_tree get_preset_path \<and>
   all_presets failing_tree =
     Inr ([] @ [''presets'', ''g'', ''first.json''] # [[''presets'', ''g'', ''second.json'']]) \<and>
   read_file failing_tree [''presets'', ''g'', ''first.json''] = Inr failing_preset \<and>
   find_target example_env (JStr ''k(a))'') = Inl CollaboratorError \<and>
   (\<exists>e' s'. add_target example_env failing_tree = Raised e' s' \<and>
      run_steps [add_target example_env, update_version example_env] failing_tree = Raised e' s' \<and>
      read_file s' [''presets'', ''g'', ''first.json''] = Inr failing_preset \<and>
      read_file s' [''presets'', ''g'', ''second.json''] = Inr later_preset) \<and>
   \<not> is_this_a_macro example_env (JStr ''zz'') \<and>
   system_mapping_get example_env (JStr ''zz'') = Inr None \<and>
   find_target example_env (JStr ''zz'') = Inr None \<and>
   with_target example_env (JStr ''zz'') None =
     Inr (JArr [JStr (''zz'' @ broken_mapping), JStr ''keyboard''])"
proof -
  let ?first = "[''presets'', ''g'', ''first.json'']" and ?second = "[''presets'', ''g'', ''second.json'']"
  have d: "distinct ([] @ ?first # [?second])" by simp
  have b: "\<forall>q \<in> set []. \<exists>content. read_file failing_tree q = Inr content \<and>
             completes (add_target_text example_env content)" by simp
  have g: "dict_get [(''mapping'', JObj [(''1,5,1'', JStr ''a''), (''1,6,1'', JStr ''k(a))'')])] ''mapping''
           = Some (JObj [(''1,5,1'', JStr ''a''), (''1,6,1'', JStr ''k(a))'')])" by simp
  have m: "(''1,6,1'', JStr ''k(a))'') \<in> set [(''1,5,1'', JStr ''a''), (''1,6,1'', JStr ''k(a))'')]" by simp
  note inst = unresolved_symbol_propagates [OF failing_tree_presets(1,2) d b failing_tree_presets(3)
      failing_preset_loads g m find_target_bad]
  have z: "\<not> is_this_a_macro example_env (JStr ''zz'')"
    "system_mapping_get example_env (JStr ''zz'') = Inr None"
    "\<forall>(n, u) \<in> set (devices example_env). None \<notin> EV_KEY u"
    by (simp_all add: example_env_def)
  from inst z have zz: "find_target example_env (JStr ''zz'') = Inr None"
    "with_target example_env (JStr ''zz'') None =
       Inr (JArr [JStr (''zz'' @ broken_mapping), JStr ''keyboard''])" by blast+
  from inst obtain e' s' where r: "add_target example_env failing_tree = Raised e' s'"
    "\<forall>steps. run_steps (add_target example_env # steps) failing_tree = Raised e' s'"
    "read_file s' ?first = Inr failing_preset"
    "\<forall>q \<in> set [?second]. read_file s' q = read_file failing_tree q" by blast
  from r(4) failing_tree_presets(4) have "read_file s' ?second = Inr later_preset" by simp
  with r(1,2,3) zz z(1,2) failing_tree_presets find_target_bad show ?thesis by blast
qed

section \<open>Properties of the layout migration\<close>

definition is_directory :: "node \<Rightarrow> bool" where
  "is_directory n = (case n of Dir es \<Rightarrow> True | File content \<Rightarrow> False)"

lemma dict_get_absent: "k \<notin> fst ` set d \<Longrightarrow> dict_get d k = None"
  by (induction d) auto

lemma dict_get_append:
  "dict_get (xs @ ys) k = (case dict_get xs k of None \<Rightarrow> dict_get ys k | Some v \<Rightarrow> Some v)"
  by (induction xs) auto

lemma dict_set_append: "k \<notin> fst ` set xs \<Longrightarrow> dict_set k v (xs @ ys) = xs @ dict_set k v ys"
  by (induction xs) auto

lemma dict_set_new: "k \<notin> fst ` set xs \<Longrightarrow> dict_set k v xs = xs @ [(k, v)]"
  by (induction xs) auto

lemma remove_entry_append [simp]:
  "remove_entry k (xs @ ys) = remove_entry k xs @ remove_entry k ys"
  by (simp add: remove_entry_def)

lemma remove_entry_simps [simp]:
  "remove_entry k [] = []"
  "remove_entry k ((k', v) # xs) = (if k' = k then remove_entry k xs else (k', v) # remove_entry k xs)"
  by (simp_all add: remove_entry_def)

lemma remove_entry_absent: "k \<notin> fst ` set xs \<Longrightarrow> remove_entry k xs = xs"
  by (induction xs) auto

lemma move_groups_invariant:
  assumes "distinct (map fst (files @ rest))" "''presets'' \<notin> fst ` set (files @ rest)"
    and "fst ` set dirs \<inter> fst ` set rest = {}"
  shows "move_groups (map fst rest)
           (s\<lparr>config_root := Some (Dir (files @ rest @ [(''presets'', Dir dirs)]))\<rparr>) =
         s\<lparr>config_root := Some (Dir ((files @ filter (\<lambda>(name, n). \<not> is_directory n) rest)
              @ [(''presets'', Dir (dirs @ filter (\<lambda>(name, n). is_directory n) rest))]))\<rparr>"
  using assms
proof (induction rest arbitrary: files dirs)
  case Nil
  then show ?case by simp
next
  case (Cons a rest)
  obtain g n where a: "a = (g, n)" by (cases a)
  let ?s0 = "s\<lparr>config_root := Some (Dir (files @ (g, n) # rest @ [(''presets'', Dir dirs)]))\<rparr>"
  from Cons.prems a have g: "g \<notin> fst ` set files" "g \<notin> fst ` set rest" "g \<noteq> ''presets''"
    "g \<notin> fst ` set dirs" "''presets'' \<notin> fst ` set files" "''presets'' \<notin> fst ` set rest"
    by auto
  have get_g: "dict_get (files @ (g, n) # rest @ [(''presets'', Dir dirs)]) g = Some n"
    using g(1) by (simp add: dict_get_append dict_get_absent)
  show ?case
  proof (cases n)
    case (File content)
    have "\<not> isdir ?s0 [g]" using get_g File by (simp add: isdir_def lookup_def)
    then have "move_groups (map fst (a # rest)) ?s0 =
               move_groups (map fst rest)
                 (s\<lparr>config_root := Some (Dir ((files @ [(g, n)]) @ rest @ [(''presets'', Dir dirs)]))\<rparr>)"
      using a by simp
    also have "\<dots> = s\<lparr>config_root := Some (Dir (((files @ [(g, n)]) @ filter (\<lambda>(name, n). \<not> is_directory n) rest)
              @ [(''presets'', Dir (dirs @ filter (\<lambda>(name, n). is_directory n) rest))]))\<rparr>"
      using Cons.prems a by (intro Cons.IH) auto
    finally show ?thesis using a File by (simp add: is_directory_def)
  next
    case (Dir es)
    have "isdir ?s0 [g]" using get_g Dir by (simp add: isdir_def lookup_def)
    moreover have "move_into_presets g ?s0 =
        s\<lparr>config_root := Some (Dir (files @ rest @ [(''presets'', Dir (dirs @ [(g, n)]))]))\<rparr>"
    proof -
      have r: "remove_entry g (files @ (g, n) # rest @ [(''presets'', Dir dirs)])
               = files @ rest @ [(''presets'', Dir dirs)]"
        using g by (simp add: remove_entry_absent)
      have p: "dict_get (files @ rest @ [(''presets'', Dir dirs)]) ''presets'' = Some (Dir dirs)"
        using g by (simp add: dict_get_append dict_get_absent)
      have "node_put (Dir (files @ rest @ [(''presets'', Dir dirs)])) [''presets'', g] n
            = Dir (files @ rest @ [(''presets'', Dir (dirs @ [(g, n)]))])"
        using p g by (simp add: dict_set_append dict_set_new)
      with get_g r show ?thesis by (simp add: move_into_presets_def)
    qed
    ultimately have "move_groups (map fst (a # rest)) ?s0 =
               move_groups (map fst rest)
                 (s\<lparr>config_root := Some (Dir (files @ rest @ [(''presets'', Dir (dirs @ [(g, n)]))]))\<rparr>)"
      using a by simp
    also have "\<dots> = s\<lparr>config_root := Some (Dir ((files @ filter (\<lambda>(name, n). \<not> is_directory n) rest)
              @ [(''presets'', Dir ((dirs @ [(g, n)]) @ filter (\<lambda>(name, n). is_directory n) rest))]))\<rparr>"
      using Cons.prems a by (intro Cons.IH) auto
    finally show ?thesis using a Dir by (simp add: is_directory_def)
  qed
qed


text \<open>
  Claim C9. \<open>_preset_path\<close> returns the tree as it is when the presets directory exists
  or the config root does not. Otherwise, when the config root is a directory that lists
  every name once, it completes, and the config root then holds its former entries that
  are not directories, followed by the new directory \<open>presets\<close>, which holds the former
  top-level directories under their names.
\<close>

theorem preset_path_nesting:
  "(path_exists s get_preset_path \<or> \<not> path_exists s [] \<longrightarrow> preset_path s = Done s) \<and>
   (\<forall>es. config_root s = Some (Dir es) \<and> distinct (map fst es) \<and>
         \<not> path_exists s get_preset_path \<longrightarrow>
      preset_path s =
        Done (s\<lparr>config_root := Some (Dir (filter (\<lambda>(name, n). \<not> is_directory n) es
                @ [(''presets'', Dir (filter (\<lambda>(name, n). is_directory n) es))]))\<rparr>))"
proof (intro conjI allI impI)
  assume "path_exists s get_preset_path \<or> \<not> path_exists s []"
  then show "preset_path s = Done s" by (auto simp: preset_path_def)
next
  fix es
  assume a: "config_root s = Some (Dir es) \<and> distinct (map fst es) \<and>
         \<not> path_exists s get_preset_path"
  then have "dict_get es ''presets'' = None"
    by (simp add: path_exists_def lookup_def get_preset_path_def split: option.splits)
  then have np: "''presets'' \<notin> fst ` set es"
    using dict_get_keys [of es "''presets''"] by (simp add: dict_keys_def)
  have ex: "path_exists s []" using a by (simp add: path_exists_def lookup_def)
  have ls: "listdir_root s = Inr (map fst es)" using a by (simp add: listdir_root_def)
  have mk: "mkdir_presets s = s\<lparr>config_root := Some (Dir ([] @ es @ [(''presets'', Dir [])]))\<rparr>"
    using a np by (simp add: mkdir_presets_def dict_set_new)
  have "move_groups (map fst es) (mkdir_presets s) =
         s\<lparr>config_root := Some (Dir (([] @ filter (\<lambda>(name, n). \<not> is_directory n) es)
              @ [(''presets'', Dir ([] @ filter (\<lambda>(name, n). is_directory n) es))]))\<rparr>"
    unfolding mk using a np by (intro move_groups_invariant) auto
  with a ex ls show "preset_path s =
        Done (s\<lparr>config_root := Some (Dir (filter (\<lambda>(name, n). \<not> is_directory n) es
                @ [(''presets'', Dir (filter (\<lambda>(name, n). is_directory n) es))]))\<rparr>)"
    by (simp add: preset_path_def)
qed

definition flat_tree :: fs where
  "flat_tree =
     \<lparr>config_root = Some (Dir
        [(''config'', File ''{}''),
         (''Foo Device'', Dir [(''a.json'', File ''{}'')]),
         (''notes'', File ''x''),
         (''Bar Device'', Dir [])]),
      legacy_root = None\<rparr>"

theorem preset_path_nesting_witness:
  "path_exists corrupt_tree get_preset_path \<and> preset_path corrupt_tree = Done corrupt_tree \<and>
   \<not> path_exists \<lparr>config_root = None, legacy_root = None\<rparr> [] \<and>
   preset_path \<lparr>config_root = None, legacy_root = None\<rparr> = Done \<lparr>config_root = None, legacy_root = None\<rparr> \<and>
   \<not> path_exists flat_tree get_preset_path \<and>
   preset_path flat_tree =
     Done \<lparr>config_root = Some (Dir
              [(''config'', File ''{}''),
               (''notes'', File ''x''),
               (''presets'', Dir [(''Foo Device'', Dir [(''a.json'', File ''{}'')]),
                                  (''Bar Device'', Dir [])])]),
           legacy_root = None\<rparr>"
proof -
  let ?none = "\<lparr>config_root = None, legacy_root = None\<rparr>"
  have a: "path_exists corrupt_tree get_preset_path" by (rule corrupt_tree_presets(1))
  have b: "\<not> path_exists ?none []" by (simp add: path_exists_def lookup_def)
  have c: "\<not> path_exists flat_tree get_preset_path"
    by (simp add: flat_tree_def path_exists_def lookup_def get_preset_path_def)
  have r: "config_root flat_tree = Some (Dir
        [(''config'', File ''{}''),
         (''Foo Device'', Dir [(''a.json'', File ''{}'')]),
         (''notes'', File ''x''),
         (''Bar Device'', Dir [])])" by (simp add: flat_tree_def)
  have d: "distinct (map fst [(''config'', File ''{}''),
         (''Foo Device'', Dir [(''a.json'', File ''{}'')]),
         (''notes'', File ''x''),
         (''Bar Device'', Dir [])])" by simp
  have "preset_path corrupt_tree = Done corrupt_tree"
    using preset_path_nesting [of corrupt_tree] a by blast
  moreover have "preset_path ?none = Done ?none"
    using preset_path_nesting [of ?none] b by blast
  moreover have "preset_path flat_tree =
     Done \<lparr>config_root = Some (Dir
              [(''config'', File ''{}''),
               (''notes'', File ''x''),
               (''presets'', Dir [(''Foo Device'', Dir [(''a.json'', File ''{}'')]),
                                  (''Bar Device'', Dir [])])]),
           legacy_root = None\<rparr>"
  proof -
    from preset_path_nesting [of flat_tree] r d c
    have "preset_path flat_tree =
        Done (flat_tree\<lparr>config_root := Some (Dir (filter (\<lambda>(name, n). \<not> is_directory n)
                [(''config'', File ''{}''),
                 (''Foo Device'', Dir [(''a.json'', File ''{}'')]),
                 (''notes'', File ''x''),
                 (''Bar Device'', Dir [])]
                @ [(''presets'', Dir (filter (\<lambda>(name, n). is_directory n)
                [(''config'', File ''{}''),
                 (''Foo Device'', Dir [(''a.json'', File ''{}'')]),
                 (''notes'', File ''x''),
                 (''Bar Device'', Dir [])]))]))\<rparr>)"
      by blast
    then show ?thesis by (simp add: is_directory_def flat_tree_def)
  qed
  ultimately show ?thesis using a b c by blast
qed


section \<open>Properties of the version stamp\<close>

text \<open>
  Claim C7: the text that \<open>_update_version\<close> writes. The config file \<open>{}\<close> is rewritten
  as the indented document with the version; no line break follows the closing brace,
  while \<open>_mapping_keys\<close> and \<open>_add_target\<close> end every file they write with one.
\<close>

theorem update_version_writes:
  "update_version example_env fresh_config =
     Done \<lparr>config_root = Some (Dir [(''config.json'',
              File (''{'' @ [nl] @ ''    '' @ [dq] @ ''version'' @ [dq] @ '': '' @ [dq] @ ''1.4.0'' @ [dq]
                    @ [nl] @ ''}''))]),
           legacy_root = None\<rparr>"
  by code_simp


end
